theory Spec2Isabelle
  imports Complex_Main "HOL-Library.Word"
begin

section \<open>Conventions of the embedding\<close>

text \<open>
  The planner and its trajectory generators (PTGs) compute on C++ \<open>double\<close> and
  \<open>float\<close> values. They are embedded as \<^typ>\<open>real\<close>: every arithmetic operation is
  the exact one, the casts \<open>(float)\<close> and \<open>(double)\<close> are the identity, and there is no
  NaN and no infinity. A division whose divisor can be zero in the program is named in
  the hypotheses of the theorems that depend on it, since HOL's \<open>x / 0 = 0\<close> is not what
  the machine computes. The functions of \<open>HolonomicBlend\<close> are the exception: they assert
  bounds on computed values and convert them to steps, what depends on the rounding, so
  each of their operations is rounded to a \<open>double\<close>, as the section on their arithmetic
  says.

  An \<open>ASSERT_\<close> of the program throws an exception; a function that can throw returns a
  value of type \<open>error + 'a\<close>, with \<open>Inl\<close> the exception.
\<close>

datatype error =
    AssertionFailed  \<comment> \<open>\<open>ASSERT_\<close>, \<open>ASSERT_GE_\<close>, \<open>ASSERT_LT_\<close>, \<open>ASSERTMSG_\<close>\<close>
  | OutOfRange  \<comment> \<open>\<open>std::map::at\<close>, \<open>std::vector::at\<close> on a missing key or index\<close>
  | SamplingExhaustion  \<comment> \<open>\<open>THROW_EXCEPTION("Could not draw collision-free random pose!")\<close>\<close>

section \<open>Library functions the sources call\<close>

text \<open>
  \<open>mrpt::sign\<close> has two values: \<open>x < 0 ? -1 : 1\<close>; the three-valued function of the
  library is \<open>mrpt::signWithZero\<close>, which \<open>HolonomicBlend.cpp\<close> calls by that name.
\<close>

definition sign :: "real \<Rightarrow> int" where
  "sign v = (if v < 0 then - 1 else 1)"


text \<open>The C library's \<open>atan2(y, x)\<close>, on reals (no signed zero): the angle of \<open>(x, y)\<close> in \<open>(-\<pi>, \<pi>]\<close>.\<close>

definition atan2 :: "real \<Rightarrow> real \<Rightarrow> real" where
  "atan2 b a =
     (if 0 < a then arctan (b / a)
      else if a < 0 then (if 0 \<le> b then arctan (b / a) + pi else arctan (b / a) - pi)
      else if 0 < b then pi / 2
      else if b < 0 then - (pi / 2)
      else 0)"

text \<open>The C library's \<open>fmod\<close>: the remainder of the division truncated towards zero.\<close>

definition trunc :: "real \<Rightarrow> int" where
  "trunc v = (if 0 \<le> v then \<lfloor>v\<rfloor> else \<lceil>v\<rceil>)"

definition fmod :: "real \<Rightarrow> real \<Rightarrow> real" where
  "fmod a m = a - m * of_int (trunc (a / m))"

text \<open>
  \<open>mrpt::math::wrapTo2PiInPlace\<close>:
  \<^verbatim>\<open>bool was_neg = a < 0;  a = fmod(a, 2.0 * M_PI);  if (was_neg) a += 2.0 * M_PI;\<close>
\<close>

definition wrapTo2Pi :: "real \<Rightarrow> real" where
  "wrapTo2Pi a =
     (let was_neg = a < 0;
          a' = fmod a (2 * pi)
      in if was_neg then a' + 2 * pi else a')"

text \<open>\<open>mrpt::round\<close>: the nearest integer, a tie going away from zero.\<close>

definition mrpt_round :: "real \<Rightarrow> int" where
  "mrpt_round v = (if 0 \<le> v then \<lfloor>v + 1 / 2\<rfloor> else \<lceil>v - 1 / 2\<rceil>)"

section \<open>The PTG base class\<close>

text \<open>
  \<open>mrpt::nav::CParameterizedTrajectoryGenerator\<close> is not part of the repository. Its
  members that the sources read are fields here; the discretisation \<open>alpha2index\<close> and
  its inverse \<open>index2alpha\<close> are parameters, so that a theorem holds for every
  discretisation.
\<close>

record CParameterizedTrajectoryGenerator =
  refDistance :: real
  m_alphaValuesCount :: nat
  alpha2index :: "real \<Rightarrow> int"
  index2alpha :: "nat \<Rightarrow> real"

text \<open>
  A uniform discretisation of \<open>(-\<pi>, \<pi>]\<close> into \<open>n\<close> directions, clamped to \<open>[0, n)\<close>: an
  instance of the parameters for the evaluations below.
\<close>

definition alpha2index_uniform :: "nat \<Rightarrow> real \<Rightarrow> int" where
  "alpha2index_uniform n a =
     (let k = mrpt_round ((real n * (1 + a / pi) - 1) / 2)
      in if k < 0 then 0 else if int n \<le> k then int n - 1 else k)"

definition index2alpha_uniform :: "nat \<Rightarrow> nat \<Rightarrow> real" where
  "index2alpha_uniform n k = pi * (- 1 + 2 * (real k + 1 / 2) / real n)"

section \<open>Poses, twists and kinematic states\<close>

text \<open>
  \<open>mrpt::math::TPose2D\<close> \<open>(x, y, phi)\<close> and \<open>mrpt::math::TTwist2D\<close> \<open>(vx, vy, omega)\<close>, and
  the operations of the library on them that the planner calls.
\<close>

datatype TPose2D = TPose2D (pose_x: real) (pose_y: real) (pose_phi: real)

datatype TTwist2D = TTwist2D (twist_vx: real) (twist_vy: real) (twist_omega: real)

definition wrapToPi :: "real \<Rightarrow> real" where
  "wrapToPi a = wrapTo2Pi (a + pi) - pi"

text \<open>
  \<open>TPose2D::operator==\<close> compares \<open>x\<close> and \<open>y\<close> exactly and \<open>phi\<close> up to whole turns
  (through \<open>wrapTo2Pi\<close>); \<open>operator!=\<close> is its negation.
\<close>

definition pose_eq :: "TPose2D \<Rightarrow> TPose2D \<Rightarrow> bool" where
  "pose_eq p1 p2 \<longleftrightarrow>
     pose_x p1 = pose_x p2 \<and> pose_y p1 = pose_y p2
     \<and> wrapTo2Pi (pose_phi p1) = wrapTo2Pi (pose_phi p2)"

text \<open>\<open>TPose2D::operator+\<close>: pose composition, the heading wrapped to \<open>(-\<pi>, \<pi>]\<close>.\<close>

definition pose_compose :: "TPose2D \<Rightarrow> TPose2D \<Rightarrow> TPose2D" where
  "pose_compose a b =
     TPose2D (pose_x a + pose_x b * cos (pose_phi a) - pose_y b * sin (pose_phi a))
             (pose_y a + pose_x b * sin (pose_phi a) + pose_y b * cos (pose_phi a))
             (wrapToPi (pose_phi a + pose_phi b))"

text \<open>\<open>TTwist2D::rotate(ang)\<close>: the linear velocity turned by \<open>ang\<close>.\<close>

definition twist_rotate :: "TTwist2D \<Rightarrow> real \<Rightarrow> TTwist2D" where
  "twist_rotate t ang =
     TTwist2D (twist_vx t * cos ang - twist_vy t * sin ang)
              (twist_vx t * sin ang + twist_vy t * cos ang)
              (twist_omega t)"

text \<open>\<open>CPose2D::operator-\<close> (unary): the inverse pose.\<close>

definition pose_inverse :: "TPose2D \<Rightarrow> TPose2D" where
  "pose_inverse p =
     TPose2D (- pose_x p * cos (pose_phi p) - pose_y p * sin (pose_phi p))
             (pose_x p * sin (pose_phi p) - pose_y p * cos (pose_phi p))
             (- pose_phi p)"

text \<open>\<open>CPose2D::composePoint(lx, ly, gx, gy)\<close>: the point \<open>(lx, ly)\<close> of the pose's frame, in the frame the pose is given in.\<close>

definition composePoint :: "TPose2D \<Rightarrow> real \<Rightarrow> real \<Rightarrow> real \<times> real" where
  "composePoint p lx ly =
     (pose_x p + lx * cos (pose_phi p) - ly * sin (pose_phi p),
      pose_y p + lx * sin (pose_phi p) + ly * cos (pose_phi p))"

text \<open>\<open>struct SE2_KinState\<close> (\<open>SE2_KinState.h\<close>): global pose and global velocity, both zero by default.\<close>

record SE2_KinState =
  pose :: TPose2D
  vel :: TTwist2D

definition SE2_KinState_default :: SE2_KinState where
  "SE2_KinState_default = \<lparr> pose = TPose2D 0 0 0, vel = TTwist2D 0 0 0 \<rparr>"

text \<open>\<open>ptg_t::TNavDynamicState\<close>, the dynamic state a PTG is told before it is queried.\<close>

record TNavDynamicState =
  curVelLocal :: TTwist2D
  relTarget :: TPose2D
  targetRelSpeed :: real

section \<open>The double arithmetic of HolonomicBlend\<close>













section \<open>HolonomicBlend: ramped holonomic paths\<close>

text \<open>
  The members of \<open>HolonomicBlend\<close> that its functions read. The compiled expressions
  \<open>m_expr_v\<close> and \<open>m_expr_w\<close> are functions of the direction \<open>m_expr_dir\<close> they are
  evaluated at, the other variables being those of the dynamic state. \<open>lu_solve\<close> is the
  linear solver of the matrix library, \<open>J.lu_solve(r)\<close>, a parameter as well.
\<close>

type_synonym vec4 = "real \<times> real \<times> real \<times> real"
type_synonym mat4 = "vec4 \<times> vec4 \<times> vec4 \<times> vec4"

record HolonomicBlend = CParameterizedTrajectoryGenerator +
  T_ramp_max :: real
  V_MAX :: real
  W_MAX :: real
  turningRadiusReference :: real
  m_expr_v :: "real \<Rightarrow> real"
  m_expr_w :: "real \<Rightarrow> real"
  m_nav_dyn_state :: TNavDynamicState
  lu_solve :: "mat4 \<Rightarrow> vec4 \<Rightarrow> vec4"




























section \<open>DiffDrive\_C: circular arcs\<close>

record DiffDrive_C = CParameterizedTrajectoryGenerator +
  V_MAX :: real
  W_MAX :: real
  turningRadiusReference :: real
  K :: real

text \<open>
  \<open>DiffDrive_C::inverseMap_WS2TP(x, y, k_out, d_out)\<close>. The result is
  \<open>(is_exact, k_out, d_out)\<close>; the two assertions on \<open>k_out\<close> end the function.
  The distance is computed from \<open>fabs(R)\<close> before \<open>R\<close> is clamped.
\<close>

definition DiffDrive_C_inverseMap_WS2TP ::
  "DiffDrive_C \<Rightarrow> real \<Rightarrow> real \<Rightarrow> error + (bool \<times> int \<times> real)" where
  "DiffDrive_C_inverseMap_WS2TP p x y =
     (let (is_exact, k_out, d_out) =
        (if y \<noteq> 0 then
           let R = (x * x + y * y) / (2 * y);
               Rmin = \<bar>V_MAX p / W_MAX p\<bar>;
               theta =
                 (if 0 < K p then
                    (if 0 < y then atan2 x (\<bar>R\<bar> - y) else atan2 x (y + \<bar>R\<bar>))
                  else
                    (if 0 < y then atan2 (- x) (\<bar>R\<bar> - y) else atan2 (- x) (y + \<bar>R\<bar>)));
               theta = wrapTo2Pi theta;
               d = theta * (\<bar>R\<bar> + turningRadiusReference p);
               is_exact = \<not> \<bar>R\<bar> < Rmin;
               R = (if \<bar>R\<bar> < Rmin then Rmin * of_int (sign R) else R);
               a = pi * V_MAX p / (W_MAX p * R)
           in (is_exact, alpha2index p a, d)
         else if sign x = sign (K p) then (True, alpha2index p 0, x)
         else (False, int (m_alphaValuesCount p) - 1, 1000));
        d_out = d_out / refDistance p
      in if \<not> 0 \<le> k_out then Inl AssertionFailed
         else if \<not> k_out < int (m_alphaValuesCount p) then Inl AssertionFailed
         else Inr (is_exact, k_out, d_out))"

text \<open>\<open>DiffDrive_C::PTG_IsIntoDomain\<close>: the domain is the whole plane.\<close>

definition DiffDrive_C_PTG_IsIntoDomain :: "DiffDrive_C \<Rightarrow> real \<Rightarrow> real \<Rightarrow> bool" where
  "DiffDrive_C_PTG_IsIntoDomain p x y = True"

text \<open>The pieces of the arc branch, named as in the source, for the statements below.\<close>

definition arc_R :: "real \<Rightarrow> real \<Rightarrow> real" where
  "arc_R x y = (x * x + y * y) / (2 * y)"

definition arc_Rmin :: "DiffDrive_C \<Rightarrow> real" where
  "arc_Rmin p = \<bar>V_MAX p / W_MAX p\<bar>"

definition arc_theta :: "DiffDrive_C \<Rightarrow> real \<Rightarrow> real \<Rightarrow> real" where
  "arc_theta p x y =
     wrapTo2Pi
       (if 0 < K p then
          (if 0 < y then atan2 x (\<bar>arc_R x y\<bar> - y) else atan2 x (y + \<bar>arc_R x y\<bar>))
        else
          (if 0 < y then atan2 (- x) (\<bar>arc_R x y\<bar> - y) else atan2 (- x) (y + \<bar>arc_R x y\<bar>)))"

definition arc_R_clamped :: "DiffDrive_C \<Rightarrow> real \<Rightarrow> real \<Rightarrow> real" where
  "arc_R_clamped p x y =
     (if \<bar>arc_R x y\<bar> < arc_Rmin p then arc_Rmin p * of_int (sign (arc_R x y)) else arc_R x y)"

text \<open>The generator of the unit scenario: \<open>K = +1\<close>, \<open>V_MAX = W_MAX = 1\<close>.\<close>

definition unit_ptg :: "real \<Rightarrow> DiffDrive_C" where
  "unit_ptg trr =
     \<lparr> refDistance = 1, m_alphaValuesCount = 121,
       alpha2index = alpha2index_uniform 121, index2alpha = index2alpha_uniform 121,
       V_MAX = 1, W_MAX = 1, turningRadiusReference = trr, K = 1 \<rparr>"

section \<open>The PTG interface of the planner\<close>

text \<open>
  The PTG interface as the planner uses it. The virtual functions of a PTG are
  parameters. A PTG keeps the dynamic state of the last \<open>updateNavDynamicState(ds)\<close>;
  here each query takes that state as its first argument. \<open>initTPObstacleSingle\<close> and
  \<open>updateTPObstacleSingle\<close> return the value they leave in their reference argument;
  \<open>getPathStepForDist\<close> returns the step, or \<open>None\<close> for \<open>false\<close>.

  \<open>PoseDistanceMetric<SE2_KinState>\<close>, built from a PTG in \<open>find_nodes_within_ball\<close>, is
  declared outside the sources at hand: its two functions \<open>cannotBeNearerThan\<close> and
  \<open>distance\<close> are parameters of the PTG too.
\<close>

record ptg_t =
  getRefDistance :: real
  initTPObstacleSingle :: "TNavDynamicState \<Rightarrow> nat \<Rightarrow> real"
  updateTPObstacleSingle :: "TNavDynamicState \<Rightarrow> real \<Rightarrow> real \<Rightarrow> nat \<Rightarrow> real \<Rightarrow> real"
  getPathStepForDist :: "TNavDynamicState \<Rightarrow> nat \<Rightarrow> real \<Rightarrow> nat option"
  getPathPose :: "TNavDynamicState \<Rightarrow> nat \<Rightarrow> nat \<Rightarrow> TPose2D"
  getPathTwist :: "TNavDynamicState \<Rightarrow> nat \<Rightarrow> nat \<Rightarrow> TTwist2D"
  cannotBeNearerThan :: "SE2_KinState \<Rightarrow> TPose2D \<Rightarrow> real \<Rightarrow> bool"
  distance :: "SE2_KinState \<Rightarrow> TPose2D \<Rightarrow> (real \<times> nat) option"

text \<open>\<open>TrajectoriesAndRobotShape\<close>: the PTGs, and what its \<open>initialized()\<close> answers.\<close>

record TrajectoriesAndRobotShape =
  ptgs :: "ptg_t list"
  initialized :: bool

section \<open>The motion tree\<close>

type_synonym TNodeID = nat
type_synonym cost_t = real
type_synonym distance_t = real
type_synonym ptg_index_t = nat
type_synonym trajectory_index_t = nat

text \<open>
  A node of the tree is a kinematic state with its cost-to-come (\<open>cost_\<close> in the source)
  and its parent, if any.
\<close>

record node_t = SE2_KinState +
  node_cost :: cost_t
  parentID :: "TNodeID option"

text \<open>\<open>MoveEdgeSE2_TPS\<close>, with the fields \<open>plan\<close> assigns.\<close>

record MoveEdgeSE2_TPS =
  parentId :: TNodeID
  ptgDist :: distance_t
  ptgIndex :: ptg_index_t
  ptgPathIndex :: trajectory_index_t
  ptgSpeedScale :: real
  stateFrom :: SE2_KinState
  stateTo :: SE2_KinState
  interpolatedPath :: "TPose2D list option"
  cost :: cost_t

text \<open>
  \<open>MotionPrimitivesTreeSE2\<close>. Nodes are indexed by dense identifiers: the node with
  identifier \<open>i\<close> is the \<open>i\<close>-th of the list, and iterating \<open>tree.nodes()\<close> visits them in
  this order. Edges are keyed by the identifier of the child; \<open>edges_to_children.clear()\<close>
  empties them. The member \<open>root\<close> is \<open>tree_root\<close> here, \<open>root\<close> being the n-th root of HOL.
\<close>

record MotionPrimitivesTreeSE2 =
  tree_root :: TNodeID
  nodes :: "node_t list"
  edges :: "TNodeID \<rightharpoonup> MoveEdgeSE2_TPS"

definition empty_tree :: MotionPrimitivesTreeSE2 where
  "empty_tree = \<lparr> tree_root = 0, nodes = [], edges = Map.empty \<rparr>"

text \<open>
  Modelled from the spec: the class \<open>MotionPrimitivesTreeSE2\<close> is missing from the
  sources; \<open>next_free_node_ID\<close> allocates a new identifier, the next dense index.
\<close>

definition next_free_node_ID :: "MotionPrimitivesTreeSE2 \<Rightarrow> TNodeID" where
  "next_free_node_ID t = length (nodes t)"

text \<open>
  Modelled from the spec: the class \<open>MotionPrimitivesTreeSE2\<close> is missing from the
  sources; \<open>insert_root_node\<close> inserts the root, with no parent, no edge and cost-to-come
  0. The planner passes the identifier that \<open>next_free_node_ID\<close> returned.
\<close>

definition insert_root_node ::
  "MotionPrimitivesTreeSE2 \<Rightarrow> TNodeID \<Rightarrow> SE2_KinState \<Rightarrow> MotionPrimitivesTreeSE2" where
  "insert_root_node t node_id s =
     t\<lparr> nodes := nodes t @ [\<lparr> pose = pose s, vel = vel s, node_cost = 0, parentID = None \<rparr>] \<rparr>"

text \<open>
  Modelled from the spec: the class \<open>MotionPrimitivesTreeSE2\<close> is missing from the
  sources; \<open>insert_node_and_edge\<close> inserts a child (parent, identifier, state, edge). The
  cost-to-come of the child is the cost-to-come of the parent plus the cost of the edge;
  the edge is stored under the identifier of the child. The planner passes the
  identifier that \<open>next_free_node_ID\<close> returned. A parent that is not in the tree is a
  failed lookup.
\<close>

definition insert_node_and_edge ::
  "MotionPrimitivesTreeSE2 \<Rightarrow> TNodeID \<Rightarrow> TNodeID \<Rightarrow> SE2_KinState \<Rightarrow> MoveEdgeSE2_TPS
     \<Rightarrow> error + MotionPrimitivesTreeSE2" where
  "insert_node_and_edge t parent_id new_child_id s e =
     (if \<not> parent_id < length (nodes t) then Inl OutOfRange
      else Inr (t\<lparr> nodes := nodes t @
                     [\<lparr> pose = pose s, vel = vel s,
                        node_cost = node_cost (nodes t ! parent_id) + cost e,
                        parentID = Some parent_id \<rparr>],
                   edges := (edges t)(new_child_id \<mapsto> e) \<rparr>))"

section \<open>The planner TPS\_RRTstar\<close>

type_synonym points = "(real \<times> real) list"

text \<open>
  An obstacle map is the sequence of its points \<open>(x, y)\<close>; the \<open>z\<close> coordinates, which
  the planner reads but never uses and writes as 0, are left out. The member \<open>ptgs\<close> of
  the input is \<open>ptgs_in\<close> here, to tell it from the list \<open>ptgs\<close> it holds.
\<close>

record PlannerInput =
  stateStart :: SE2_KinState
  stateGoal :: SE2_KinState
  ptgs_in :: TrajectoriesAndRobotShape
  obstacles :: points
  worldBboxMin :: TPose2D
  worldBboxMax :: TPose2D

record PlannerOutput =
  originalInput :: PlannerInput
  motionTree :: MotionPrimitivesTreeSE2
  success :: bool

text \<open>
  Modelled from the spec: the declaration of \<open>PlannerOutput\<close> is missing from the
  sources; a new output has an empty tree and \<open>success = false\<close>, the value reported
  when no goal was reached.
\<close>

definition PlannerOutput_default :: "PlannerInput \<Rightarrow> PlannerOutput" where
  "PlannerOutput_default i =
     \<lparr> originalInput = i, motionTree = empty_tree, success = False \<rparr>"

text \<open>The parameters of the planner that \<open>plan\<close> reads.\<close>

record TPS_RRTstar_Parameters =
  maxIterations :: nat
  initialSearchRadius :: real
  renderPathInterpolatedSegments :: nat

text \<open>One entry of \<open>local_obstacles_cache_\<close>.\<close>

record LocalObstaclesInfo =
  globalNodePose :: TPose2D
  obs :: points

type_synonym obstacles_cache = "TNodeID \<rightharpoonup> LocalObstaclesInfo"

text \<open>
  The planner object: its parameters, its cache of local obstacles (\<open>local_obstacles_cache_\<close>,
  a member that outlives a call of \<open>plan\<close>), and the draws of the random generator:
  \<open>draw_random_free_pose\<close> gives, for the iteration and the tree it is called on, the pose
  drawn or the exception thrown after 1000000 failed attempts.
\<close>

record TPS_RRTstar =
  params :: TPS_RRTstar_Parameters
  local_obstacles_cache :: obstacles_cache
  draw_random_free_pose :: "nat \<Rightarrow> MotionPrimitivesTreeSE2 \<Rightarrow> error + TPose2D"

text \<open>\<open>within_bbox(p, max, min)\<close>: all six comparisons are strict.\<close>

definition within_bbox :: "TPose2D \<Rightarrow> TPose2D \<Rightarrow> TPose2D \<Rightarrow> bool" where
  "within_bbox p mx mn \<longleftrightarrow>
     pose_x p < pose_x mx \<and> pose_y p < pose_y mx \<and> pose_phi p < pose_phi mx \<and>
     pose_x mn < pose_x p \<and> pose_y mn < pose_y p \<and> pose_phi mn < pose_phi p"

text \<open>\<open>TPS_RRTstar::cost_path_segment\<close>.\<close>

definition cost_path_segment :: "MoveEdgeSE2_TPS \<Rightarrow> cost_t" where
  "cost_path_segment edge = ptgDist edge"

text \<open>
  \<open>TPS_RRTstar::transform_pc_square_clipping\<close>: the loop over the points of \<open>inMap\<close>,
  returning the points inserted into \<open>outMap\<close>, in order.
\<close>

fun clip_loop :: "TPose2D \<Rightarrow> TPose2D \<Rightarrow> real \<Rightarrow> points \<Rightarrow> points" where
  "clip_loop asSeenFrom invPose MAX_DIST_XY [] = []"
| "clip_loop asSeenFrom invPose MAX_DIST_XY ((gx, gy) # rest) =
     (if MAX_DIST_XY < \<bar>gx - pose_x asSeenFrom\<bar> \<or> MAX_DIST_XY < \<bar>gy - pose_y asSeenFrom\<bar>
      then clip_loop asSeenFrom invPose MAX_DIST_XY rest
      else composePoint invPose gx gy # clip_loop asSeenFrom invPose MAX_DIST_XY rest)"

definition transform_pc_square_clipping :: "points \<Rightarrow> TPose2D \<Rightarrow> real \<Rightarrow> points" where
  "transform_pc_square_clipping inMap asSeenFrom MAX_DIST_XY =
     (let invPose = pose_inverse asSeenFrom
      in clip_loop asSeenFrom invPose MAX_DIST_XY inMap)"

text \<open>
  \<open>TPS_RRTstar::tp_obstacles_single_path\<close>, for a PTG in the dynamic state \<open>ds\<close>: the
  free distance is initialised by the PTG and updated with each obstacle point.
\<close>

definition tp_obstacles_single_path ::
  "trajectory_index_t \<Rightarrow> points \<Rightarrow> ptg_t \<Rightarrow> TNavDynamicState \<Rightarrow> distance_t" where
  "tp_obstacles_single_path tp_space_k_direction localObstacles ptg ds =
     fold (\<lambda>(ox, oy) out_TPObstacle_k.
             updateTPObstacleSingle ptg ds ox oy tp_space_k_direction out_TPObstacle_k)
          localObstacles
          (initTPObstacleSingle ptg ds tp_space_k_direction)"

text \<open>
  \<open>TPS_RRTstar::cached_local_obstacles\<close>. The result is the returned point set, or the
  exception of \<open>tree.nodes().at(nodeID)\<close>, and the cache afterwards.
\<close>

definition cached_local_obstacles ::
  "obstacles_cache \<Rightarrow> MotionPrimitivesTreeSE2 \<Rightarrow> TNodeID \<Rightarrow> points \<Rightarrow> real
     \<Rightarrow> (error + points) \<times> obstacles_cache" where
  "cached_local_obstacles cache tree nodeID globalObstacles MAX_XY_DIST =
     (if \<not> nodeID < length (nodes tree) then (Inl OutOfRange, cache)
      else
        let node = nodes tree ! nodeID
        in case cache nodeID of
             Some itOc \<Rightarrow>
               if pose_eq (globalNodePose itOc) (pose node) then (Inr (obs itOc), cache)
               else
                 let loc = \<lparr> globalNodePose = pose node,
                             obs = transform_pc_square_clipping globalObstacles (pose node)
                                     MAX_XY_DIST \<rparr>
                 in (Inr (obs loc), cache(nodeID \<mapsto> loc))
           | None \<Rightarrow>
               let loc = \<lparr> globalNodePose = pose node,
                           obs = transform_pc_square_clipping globalObstacles (pose node)
                                   MAX_XY_DIST \<rparr>
               in (Inr (obs loc), cache(nodeID \<mapsto> loc)))"

text \<open>
  \<open>closest_nodes_list_t\<close> is a \<open>std::multimap\<close> from the distance to
  \<open>(node, PTG index, trajectory index, distance)\<close>: a list in iteration order.
  \<open>emplace\<close> puts a new element after the elements whose key is not larger.
\<close>

type_synonym closest_nodes_list_t =
  "(distance_t \<times> (TNodeID \<times> ptg_index_t \<times> trajectory_index_t \<times> distance_t)) list"

fun multimap_emplace :: "distance_t \<times> 'v \<Rightarrow> (distance_t \<times> 'v) list \<Rightarrow> (distance_t \<times> 'v) list" where
  "multimap_emplace kv [] = [kv]"
| "multimap_emplace kv (e # es) =
     (if fst kv < fst e then kv # e # es else e # multimap_emplace kv es)"

text \<open>
  \<open>TPS_RRTstar::find_nodes_within_ball\<close>: the inner loop over the distance evaluators
  of the PTGs, from index \<open>ptgIdx\<close> on, for one node.
\<close>

fun scan_ptgs ::
  "TNodeID \<Rightarrow> SE2_KinState \<Rightarrow> TPose2D \<Rightarrow> real \<Rightarrow> ptg_index_t \<Rightarrow> ptg_t list
     \<Rightarrow> closest_nodes_list_t \<Rightarrow> error + closest_nodes_list_t" where
  "scan_ptgs nodeId nodeState query maxDistance ptgIdx [] closestNodes = Inr closestNodes"
| "scan_ptgs nodeId nodeState query maxDistance ptgIdx (de # des) closestNodes =
     (if cannotBeNearerThan de nodeState query maxDistance
      then scan_ptgs nodeId nodeState query maxDistance (Suc ptgIdx) des closestNodes
      else
        case distance de nodeState query of
          None \<Rightarrow> scan_ptgs nodeId nodeState query maxDistance (Suc ptgIdx) des closestNodes
        | Some (dst, trajIndex) \<Rightarrow>
            if \<not> 0 < dst then Inl AssertionFailed
            else if maxDistance < dst
            then scan_ptgs nodeId nodeState query maxDistance (Suc ptgIdx) des closestNodes
            else scan_ptgs nodeId nodeState query maxDistance (Suc ptgIdx) des
                   (multimap_emplace (dst, (nodeId, ptgIdx, trajIndex, dst)) closestNodes))"

text \<open>The outer loop over the nodes, from identifier \<open>nodeId\<close> on.\<close>

fun scan_nodes ::
  "TPose2D \<Rightarrow> real \<Rightarrow> ptg_t list \<Rightarrow> TNodeID \<Rightarrow> node_t list
     \<Rightarrow> closest_nodes_list_t \<Rightarrow> error + closest_nodes_list_t" where
  "scan_nodes query maxDistance des nodeId [] closestNodes = Inr closestNodes"
| "scan_nodes query maxDistance des nodeId (node # rest) closestNodes =
     (case scan_ptgs nodeId (SE2_KinState.truncate node) query maxDistance 0 des closestNodes of
        Inl e \<Rightarrow> Inl e
      | Inr closestNodes' \<Rightarrow> scan_nodes query maxDistance des (Suc nodeId) rest closestNodes')"

definition find_nodes_within_ball ::
  "MotionPrimitivesTreeSE2 \<Rightarrow> TPose2D \<Rightarrow> real \<Rightarrow> TrajectoriesAndRobotShape
     \<Rightarrow> error + closest_nodes_list_t" where
  "find_nodes_within_ball tree query maxDistance trs =
     (if nodes tree = [] then Inl AssertionFailed
      else if \<not> 1 \<le> length (ptgs trs) then Inl AssertionFailed
      else scan_nodes query maxDistance (ptgs trs) 0 (nodes tree) [])"

text \<open>
  The dynamic state \<open>plan\<close> gives a PTG before it queries it from the node \<open>srcNode\<close>: the
  velocity of the node in its own frame, the relative target \<open>(1, 0, 0)\<close> and the relative
  speed 1.
\<close>

definition dyn_state_of :: "'a SE2_KinState_scheme \<Rightarrow> TNavDynamicState" where
  "dyn_state_of srcNode =
     \<lparr> curVelLocal = twist_rotate (vel srcNode) (- pose_phi (pose srcNode)),
       relTarget = TPose2D 1 0 0,
       targetRelSpeed = 1 \<rparr>"

text \<open>The interpolated path of a tentative edge, present when \<open>nSeg > 0\<close>.\<close>

definition interpolated_path ::
  "ptg_t \<Rightarrow> TNavDynamicState \<Rightarrow> trajectory_index_t \<Rightarrow> nat \<Rightarrow> TPose2D \<Rightarrow> nat
     \<Rightarrow> TPose2D list option" where
  "interpolated_path ptg ds trajIdx ptg_step reconstrRelPose nSeg =
     (if 0 < nSeg
      then Some (TPose2D 0 0 0
                 # map (\<lambda>i. getPathPose ptg ds trajIdx (((i + 1) * ptg_step) div (nSeg + 2)))
                       [0..<nSeg]
                 @ [reconstrRelPose])
      else None)"

text \<open>
  The body of the loop of \<open>plan\<close> over \<open>closeNodes\<close>, for one tuple: the tentative edge
  and its tentative cost, or \<open>None\<close> where the source says \<open>continue\<close>; and the cache
  afterwards.
\<close>

definition try_candidate ::
  "TPS_RRTstar_Parameters \<Rightarrow> PlannerInput \<Rightarrow> MotionPrimitivesTreeSE2 \<Rightarrow> real
     \<Rightarrow> obstacles_cache \<Rightarrow> TNodeID \<times> ptg_index_t \<times> trajectory_index_t \<times> distance_t
     \<Rightarrow> (error + (MoveEdgeSE2_TPS \<times> cost_t) option) \<times> obstacles_cache" where
  "try_candidate ps pin tree MAX_XY_DIST cache tupl =
     (let (nodeId, ptgIdx, trajIdx, trajDist) = tupl
      in case cached_local_obstacles cache tree nodeId (obstacles pin) MAX_XY_DIST of
           (Inl e, cache') \<Rightarrow> (Inl e, cache')
         | (Inr localObstacles, cache') \<Rightarrow>
             if \<not> nodeId < length (nodes tree) then (Inl OutOfRange, cache')
             else if \<not> ptgIdx < length (ptgs (ptgs_in pin)) then (Inl OutOfRange, cache')
             else
               let srcNode = nodes tree ! nodeId;
                   ptg = ptgs (ptgs_in pin) ! ptgIdx;
                   ds = dyn_state_of srcNode;
                   freeDistance = tp_obstacles_single_path trajIdx localObstacles ptg ds
               in if freeDistance \<le> trajDist then (Inr None, cache')
                  else
                    case getPathStepForDist ptg ds trajIdx trajDist of
                      None \<Rightarrow> (Inr None, cache')
                    | Some ptg_step \<Rightarrow>
                        let reconstrRelPose = getPathPose ptg ds trajIdx ptg_step;
                            relTwist = getPathTwist ptg ds trajIdx ptg_step;
                            q_i = pose_compose (pose srcNode) reconstrRelPose;
                            x_i = \<lparr> pose = q_i,
                                    vel = twist_rotate relTwist (pose_phi (pose srcNode)) \<rparr>;
                            tentativeEdge =
                              \<lparr> parentId = nodeId,
                                ptgDist = trajDist,
                                ptgIndex = ptgIdx,
                                ptgPathIndex = trajIdx,
                                ptgSpeedScale = targetRelSpeed ds,
                                stateFrom = SE2_KinState.truncate srcNode,
                                stateTo = x_i,
                                interpolatedPath =
                                  interpolated_path ptg ds trajIdx ptg_step reconstrRelPose
                                    (renderPathInterpolatedSegments ps),
                                cost = 0 \<rparr>;
                            tentativeEdge =
                              tentativeEdge\<lparr> cost := cost_path_segment tentativeEdge \<rparr>;
                            cost_x = node_cost srcNode;
                            newTentativeCost = cost_x + cost tentativeEdge
                        in (Inr (Some (tentativeEdge, newTentativeCost)), cache'))"

text \<open>The loop over \<open>closeNodes\<close>, keeping the edge of the smallest tentative cost.\<close>

fun candidates_loop ::
  "TPS_RRTstar_Parameters \<Rightarrow> PlannerInput \<Rightarrow> MotionPrimitivesTreeSE2 \<Rightarrow> real
     \<Rightarrow> closest_nodes_list_t \<Rightarrow> obstacles_cache
     \<Rightarrow> MoveEdgeSE2_TPS option \<Rightarrow> cost_t option
     \<Rightarrow> (error + MoveEdgeSE2_TPS option \<times> cost_t option) \<times> obstacles_cache" where
  "candidates_loop ps pin tree MAX_XY_DIST [] cache bestEdge bestCost =
     (Inr (bestEdge, bestCost), cache)"
| "candidates_loop ps pin tree MAX_XY_DIST (tupl # rest) cache bestEdge bestCost =
     (case try_candidate ps pin tree MAX_XY_DIST cache (snd tupl) of
        (Inl e, cache') \<Rightarrow> (Inl e, cache')
      | (Inr None, cache') \<Rightarrow>
          candidates_loop ps pin tree MAX_XY_DIST rest cache' bestEdge bestCost
      | (Inr (Some (tentativeEdge, newTentativeCost)), cache') \<Rightarrow>
          if bestCost = None \<or> newTentativeCost < the bestCost
          then candidates_loop ps pin tree MAX_XY_DIST rest cache'
                 (Some tentativeEdge) (Some newTentativeCost)
          else candidates_loop ps pin tree MAX_XY_DIST rest cache' bestEdge bestCost)"

text \<open>
  One iteration of the main loop of \<open>plan\<close>: the tree and the cache after it, or the
  exception that ends the call. The rewiring step is a \<open>TODO\<close> of the source; the debug
  scene files are left out.
\<close>

definition plan_iter ::
  "TPS_RRTstar \<Rightarrow> PlannerInput \<Rightarrow> real \<Rightarrow> real \<Rightarrow> nat \<Rightarrow> MotionPrimitivesTreeSE2
     \<Rightarrow> obstacles_cache \<Rightarrow> (error + MotionPrimitivesTreeSE2) \<times> obstacles_cache" where
  "plan_iter P pin MAX_XY_DIST searchRadius rrtIter tree cache =
     (case draw_random_free_pose P rrtIter tree of
        Inl e \<Rightarrow> (Inl e, cache)
      | Inr qi \<Rightarrow>
          case find_nodes_within_ball tree qi searchRadius (ptgs_in pin) of
            Inl e \<Rightarrow> (Inl e, cache)
          | Inr closeNodes \<Rightarrow>
              if closeNodes = [] then (Inr tree, cache)
              else
                case candidates_loop (params P) pin tree MAX_XY_DIST closeNodes cache
                       None None of
                  (Inl e, cache') \<Rightarrow> (Inl e, cache')
                | (Inr (bestEdge, bestCost), cache') \<Rightarrow>
                    (case bestEdge of
                       None \<Rightarrow> (Inr tree, cache')
                     | Some e \<Rightarrow>
                         let newNodeId = next_free_node_ID tree
                         in (insert_node_and_edge tree (parentId e) newNodeId (stateTo e) e,
                             cache')))"

text \<open>The main loop, over the iterations that remain.\<close>

fun plan_loop ::
  "TPS_RRTstar \<Rightarrow> PlannerInput \<Rightarrow> real \<Rightarrow> real \<Rightarrow> nat list \<Rightarrow> MotionPrimitivesTreeSE2
     \<Rightarrow> obstacles_cache \<Rightarrow> (error + MotionPrimitivesTreeSE2) \<times> obstacles_cache" where
  "plan_loop P pin MAX_XY_DIST searchRadius [] tree cache = (Inr tree, cache)"
| "plan_loop P pin MAX_XY_DIST searchRadius (rrtIter # iters) tree cache =
     (case plan_iter P pin MAX_XY_DIST searchRadius rrtIter tree cache of
        (Inl e, cache') \<Rightarrow> (Inl e, cache')
      | (Inr tree', cache') \<Rightarrow> plan_loop P pin MAX_XY_DIST searchRadius iters tree' cache')"

text \<open>The clipping distance of \<open>plan\<close>: the largest reference distance of the PTGs, from 0.\<close>

definition max_ref_distance :: "ptg_t list \<Rightarrow> real" where
  "max_ref_distance ps = fold (\<lambda>ptg MAX_XY_DIST. max MAX_XY_DIST (getRefDistance ptg)) ps 0"

text \<open>The tree of \<open>plan\<close> before its main loop: the root is the start state, there is no edge.\<close>

definition initial_tree :: "PlannerInput \<Rightarrow> MotionPrimitivesTreeSE2" where
  "initial_tree pin =
     (let tree = motionTree (PlannerOutput_default pin);
          tree = tree\<lparr> tree_root := next_free_node_ID tree \<rparr>;
          tree = insert_root_node tree (tree_root tree) (stateStart pin)
      in tree\<lparr> edges := Map.empty \<rparr>)"

text \<open>
  \<open>TPS_RRTstar::plan\<close>: the output or the exception, and the cache of the planner
  afterwards. The sanity checks come first.
\<close>

definition plan ::
  "TPS_RRTstar \<Rightarrow> PlannerInput \<Rightarrow> (error + PlannerOutput) \<times> obstacles_cache" where
  "plan P pin =
     (if \<not> initialized (ptgs_in pin) then (Inl AssertionFailed, local_obstacles_cache P)
      else if \<not> \<not> pose_eq (worldBboxMin pin) (worldBboxMax pin)
      then (Inl AssertionFailed, local_obstacles_cache P)
      else if \<not> within_bbox (pose (stateStart pin)) (worldBboxMax pin) (worldBboxMin pin)
      then (Inl AssertionFailed, local_obstacles_cache P)
      else if \<not> within_bbox (pose (stateGoal pin)) (worldBboxMax pin) (worldBboxMin pin)
      then (Inl AssertionFailed, local_obstacles_cache P)
      else
        let po = PlannerOutput_default pin;
            MAX_XY_DIST = max_ref_distance (ptgs (ptgs_in pin))
        in if \<not> 0 < MAX_XY_DIST then (Inl AssertionFailed, local_obstacles_cache P)
           else
             let tree = initial_tree pin;
                 searchRadius = initialSearchRadius (params P)
             in case plan_loop P pin MAX_XY_DIST searchRadius
                       [0..<maxIterations (params P)] tree (local_obstacles_cache P) of
                  (Inl e, cache') \<Rightarrow> (Inl e, cache')
                | (Inr tree', cache') \<Rightarrow> (Inr (po\<lparr> motionTree := tree' \<rparr>), cache'))"

section \<open>Predicates and fixtures for the statements\<close>

text \<open>
  What it means that \<open>find_nodes_within_ball\<close> emitted the entry for the node and the
  PTG: the key is the exact distance \<open>d\<close> of the PTG's metric, \<open>0 < d \<le> maxDistance\<close>, and
  the pair was not pruned.
\<close>

definition emitted_by ::
  "TNodeID \<Rightarrow> SE2_KinState \<Rightarrow> TPose2D \<Rightarrow> real \<Rightarrow> ptg_index_t \<Rightarrow> ptg_t
     \<Rightarrow> distance_t \<times> (TNodeID \<times> ptg_index_t \<times> trajectory_index_t \<times> distance_t) \<Rightarrow> bool" where
  "emitted_by nodeId nodeState query maxDistance ptgIdx de entry \<longleftrightarrow>
     (\<exists>d trajIndex.
        entry = (d, (nodeId, ptgIdx, trajIndex, d)) \<and> 0 < d \<and> d \<le> maxDistance
        \<and> \<not> cannotBeNearerThan de nodeState query maxDistance
        \<and> distance de nodeState query = Some (d, trajIndex))"

text \<open>
  The local obstacle set in the words of the specification: the global points within the
  axis-aligned square of half-side \<open>MAX_XY_DIST\<close> around the node, each expressed in the
  frame of the node.
\<close>

definition in_square :: "TPose2D \<Rightarrow> real \<Rightarrow> real \<times> real \<Rightarrow> bool" where
  "in_square p MAX_XY_DIST g \<longleftrightarrow>
     \<bar>fst g - pose_x p\<bar> \<le> MAX_XY_DIST \<and> \<bar>snd g - pose_y p\<bar> \<le> MAX_XY_DIST"

definition to_local :: "TPose2D \<Rightarrow> real \<times> real \<Rightarrow> real \<times> real" where
  "to_local p g =
     ((fst g - pose_x p) * cos (pose_phi p) + (snd g - pose_y p) * sin (pose_phi p),
      - (fst g - pose_x p) * sin (pose_phi p) + (snd g - pose_y p) * cos (pose_phi p))"

definition local_obstacles_spec :: "points \<Rightarrow> TPose2D \<Rightarrow> real \<Rightarrow> points" where
  "local_obstacles_spec globalObstacles p MAX_XY_DIST =
     map (to_local p) (filter (in_square p MAX_XY_DIST) globalObstacles)"

text \<open>A cache hit of \<open>cached_local_obstacles\<close>: an entry for the node whose stored pose equals the pose of the node.\<close>

definition cache_hit :: "obstacles_cache \<Rightarrow> MotionPrimitivesTreeSE2 \<Rightarrow> TNodeID \<Rightarrow> bool" where
  "cache_hit cache tree nodeID \<longleftrightarrow>
     (case cache nodeID of
        None \<Rightarrow> False
      | Some itOc \<Rightarrow> pose_eq (globalNodePose itOc) (pose (nodes tree ! nodeID)))"

text \<open>
  A PTG for the evaluations: one trajectory, along the x axis at unit speed, with steps of
  10 ms and a horizon of 10; an obstacle point on the axis ahead shortens the free distance.
\<close>

definition line_ptg :: ptg_t where
  "line_ptg =
     \<lparr> getRefDistance = 10,
       initTPObstacleSingle = (\<lambda>ds k. 10),
       updateTPObstacleSingle =
         (\<lambda>ds ox oy k out. if oy = 0 \<and> 0 \<le> ox \<and> ox < out then ox else out),
       getPathStepForDist =
         (\<lambda>ds k d. if 0 \<le> d then Some (nat (mrpt_round (d * 100))) else None),
       getPathPose = (\<lambda>ds k step. TPose2D (real step / 100) 0 0),
       getPathTwist = (\<lambda>ds k step. TTwist2D 1 0 0),
       cannotBeNearerThan = (\<lambda>s q r. r < \<bar>pose_x q - pose_x (pose s)\<bar>),
       distance =
         (\<lambda>s q. if pose_y q = pose_y (pose s) \<and> pose_x (pose s) < pose_x q
                then Some (pose_x q - pose_x (pose s), 0) else None) \<rparr>"

definition line_ptgs :: TrajectoriesAndRobotShape where
  "line_ptgs = \<lparr> ptgs = [line_ptg], initialized = True \<rparr>"

text \<open>A tree of two nodes on the x axis: the root at the origin and a child at \<open>x = 1/2\<close>.\<close>

definition two_node_tree :: MotionPrimitivesTreeSE2 where
  "two_node_tree =
     \<lparr> tree_root = 0,
       nodes =
         [\<lparr> pose = TPose2D 0 0 0, vel = TTwist2D 0 0 0, node_cost = 0, parentID = None \<rparr>,
          \<lparr> pose = TPose2D (1 / 2) 0 0, vel = TTwist2D 1 0 0, node_cost = 1 / 2,
            parentID = Some 0 \<rparr>],
       edges = Map.empty \<rparr>"

text \<open>
  A planning problem for the evaluations: from the origin to \<open>(1, 0, 0)\<close> in the box
  \<open>(\<plusminus>5, \<plusminus>5, \<plusminus>4)\<close>, with no obstacle, and a planner whose every draw is the goal pose.
\<close>

definition line_input :: PlannerInput where
  "line_input =
     \<lparr> stateStart = \<lparr> pose = TPose2D 0 0 0, vel = TTwist2D 0 0 0 \<rparr>,
       stateGoal = \<lparr> pose = TPose2D 1 0 0, vel = TTwist2D 0 0 0 \<rparr>,
       ptgs_in = line_ptgs,
       obstacles = [],
       worldBboxMin = TPose2D (- 5) (- 5) (- 4),
       worldBboxMax = TPose2D 5 5 4 \<rparr>"

definition goal_planner :: "nat \<Rightarrow> real \<Rightarrow> TPS_RRTstar" where
  "goal_planner n r =
     \<lparr> params = \<lparr> maxIterations = n, initialSearchRadius = r,
                  renderPathInterpolatedSegments = 0 \<rparr>,
       local_obstacles_cache = Map.empty,
       draw_random_free_pose = (\<lambda>rrtIter tree. Inr (TPose2D 1 0 0)) \<rparr>"

text \<open>The tree and the cache after one iteration of the planner on this problem.\<close>

definition line_edge :: MoveEdgeSE2_TPS where
  "line_edge = \<lparr> parentId = 0, ptgDist = 1, ptgIndex = 0, ptgPathIndex = 0, ptgSpeedScale = 1,
      stateFrom = \<lparr> pose = TPose2D 0 0 0, vel = TTwist2D 0 0 0 \<rparr>,
      stateTo = \<lparr> pose = TPose2D 1 0 0, vel = TTwist2D 1 0 0 \<rparr>,
      interpolatedPath = None, cost = 1 \<rparr>"

definition line_tree :: MotionPrimitivesTreeSE2 where
  "line_tree = \<lparr> tree_root = 0,
       nodes = [\<lparr> pose = TPose2D 0 0 0, vel = TTwist2D 0 0 0, node_cost = 0, parentID = None \<rparr>,
                \<lparr> pose = TPose2D 1 0 0, vel = TTwist2D 1 0 0, node_cost = 1, parentID = Some 0 \<rparr>],
       edges = [1 \<mapsto> line_edge] \<rparr>"

definition line_cache :: obstacles_cache where
  "line_cache = [0 \<mapsto> \<lparr> globalNodePose = TPose2D 0 0 0, obs = [] \<rparr>]"

text \<open>
  The facts that \<open>plan\<close> maintains about an edge of the tree, given the input and the
  cache of local obstacles: its parent is a node, its cost is its PTG distance, its PTG
  exists, the cache holds the local obstacles of the parent, and its distance is smaller
  than the free distance along its trajectory at these local obstacles, in the dynamic
  state of the parent.
\<close>

definition edge_ok ::
  "PlannerInput \<Rightarrow> MotionPrimitivesTreeSE2 \<Rightarrow> obstacles_cache \<Rightarrow> MoveEdgeSE2_TPS \<Rightarrow> bool" where
  "edge_ok pin tree cache e \<longleftrightarrow>
     parentId e < length (nodes tree)
     \<and> cost e = ptgDist e
     \<and> ptgIndex e < length (ptgs (ptgs_in pin))
     \<and> cache_hit cache tree (parentId e)
     \<and> ptgDist e <
         tp_obstacles_single_path (ptgPathIndex e) (obs (the (cache (parentId e))))
           (ptgs (ptgs_in pin) ! ptgIndex e) (dyn_state_of (nodes tree ! parentId e))"

definition tree_inv ::
  "PlannerInput \<Rightarrow> MotionPrimitivesTreeSE2 \<Rightarrow> obstacles_cache \<Rightarrow> bool" where
  "tree_inv pin tree cache \<longleftrightarrow>
     (\<forall>c e. edges tree c = Some e \<longrightarrow>
        c < length (nodes tree) \<and> parentId e < c
        \<and> parentID (nodes tree ! c) = Some (parentId e)
        \<and> node_cost (nodes tree ! c) = node_cost (nodes tree ! parentId e) + cost e
        \<and> edge_ok pin tree cache e)"

text \<open>An entry that is hit stays as it is.\<close>

definition cache_stable ::
  "MotionPrimitivesTreeSE2 \<Rightarrow> obstacles_cache \<Rightarrow> obstacles_cache \<Rightarrow> bool" where
  "cache_stable tree cache cache' \<longleftrightarrow>
     (\<forall>n. cache_hit cache tree n \<longrightarrow> cache' n = cache n)"

text \<open>Every entry of the cache holds the clipped obstacles of this input, at its stored pose.\<close>

definition cache_consistent :: "points \<Rightarrow> real \<Rightarrow> obstacles_cache \<Rightarrow> bool" where
  "cache_consistent globalObstacles MAX_XY_DIST cache \<longleftrightarrow>
     (\<forall>n itOc. cache n = Some itOc \<longrightarrow>
        obs itOc = local_obstacles_spec globalObstacles (globalNodePose itOc) MAX_XY_DIST)"

text \<open>
  The cost equation of the edge \<open>e\<close> into the child \<open>c\<close>: the parent was inserted before the
  child, the cost-to-come of the child is that of the parent plus the cost of the edge,
  and the cost of the edge is its PTG distance, the value of \<open>cost_path_segment\<close>.
\<close>

definition cost_to_come_ok ::
  "MotionPrimitivesTreeSE2 \<Rightarrow> TNodeID \<Rightarrow> MoveEdgeSE2_TPS \<Rightarrow> bool" where
  "cost_to_come_ok tree c e \<longleftrightarrow>
     c < length (nodes tree) \<and> parentId e < c
     \<and> parentID (nodes tree ! c) = Some (parentId e)
     \<and> node_cost (nodes tree ! c) = node_cost (nodes tree ! parentId e) + cost e
     \<and> cost e = ptgDist e \<and> cost_path_segment e = ptgDist e"

text \<open>
  Two variants of the planning problem: the start on the lower bound of the box in \<open>x\<close>,
  and the goal outside the box.
\<close>

definition boundary_input :: PlannerInput where
  "boundary_input = line_input\<lparr> worldBboxMin := TPose2D 0 (- 5) (- 4) \<rparr>"

definition far_goal_input :: PlannerInput where
  "far_goal_input =
     line_input\<lparr> stateGoal := \<lparr> pose = TPose2D 100 0 0, vel = TTwist2D 0 0 0 \<rparr> \<rparr>"

text \<open>
  The planning problem with obstacle points: one on the x axis beyond the goal, at \<open>x = 3\<close>,
  and one outside the square of half-side 10 around the start. The cache after one
  iteration of the planner on it.
\<close>

definition obstacle_input :: PlannerInput where
  "obstacle_input = line_input \<lparr> obstacles := [(3, 0), (20, 0)] \<rparr>"

definition obstacle_cache :: obstacles_cache where
  "obstacle_cache = [0 \<mapsto> \<lparr> globalNodePose = TPose2D 0 0 0, obs = [(3, 0)] \<rparr>]"

text \<open>
  The planning problem with an obstacle point between the start and the goal, at
  \<open>x = 1/2\<close>, and the planner as its call on the problem without obstacles has left it:
  its cache is \<open>line_cache\<close>.
\<close>

definition blocked_input :: PlannerInput where
  "blocked_input = line_input \<lparr> obstacles := [(1 / 2, 0)] \<rparr>"

definition reused_planner :: TPS_RRTstar where
  "reused_planner = (goal_planner 1 2) \<lparr> local_obstacles_cache := line_cache \<rparr>"

section \<open>Properties of the library functions\<close>

lemma atan2_bounds: "- pi < atan2 b a \<and> atan2 b a \<le> pi"
proof -
  have lo: "- (pi / 2) < arctan (b / a)" and hi: "arctan (b / a) < pi / 2"
    by (rule arctan_lbound, rule arctan_ubound)
  have neg: "a < 0 \<Longrightarrow> 0 \<le> b \<Longrightarrow> arctan (b / a) \<le> 0"
    by (simp add: divide_nonneg_neg arctan_le_zero_iff)
  have pos: "a < 0 \<Longrightarrow> b < 0 \<Longrightarrow> 0 < arctan (b / a)"
    by (simp add: divide_neg_neg zero_less_arctan_iff)
  show ?thesis
    using lo hi neg pos pi_gt_zero unfolding atan2_def by auto
qed

text \<open>On the range of \<open>atan2\<close> the wrap adds one turn to a negative angle.\<close>

lemma wrapTo2Pi_small:
  assumes "- pi < t" "t \<le> pi"
  shows "wrapTo2Pi t = (if t < 0 then t + 2 * pi else t)"
proof -
  have q: "- 1 < t / (2 * pi)" "t / (2 * pi) < 1"
    using assms pi_gt_zero by (simp_all add: field_simps)
  have "trunc (t / (2 * pi)) = 0"
  proof (cases "0 \<le> t")
    case True
    then have "0 \<le> t / (2 * pi)" by simp
    then show ?thesis using q by (simp add: trunc_def floor_eq_iff)
  next
    case False
    then have "t / (2 * pi) < 0" using pi_gt_zero by (simp add: field_simps)
    then show ?thesis using q by (simp add: trunc_def ceiling_eq_iff)
  qed
  then show ?thesis by (simp add: wrapTo2Pi_def fmod_def)
qed

lemma wrapTo2Pi_atan2_range:
  "0 \<le> wrapTo2Pi (atan2 b a) \<and> wrapTo2Pi (atan2 b a) < 2 * pi"
  using atan2_bounds [of b a] by (simp add: wrapTo2Pi_small)

lemma alpha2index_uniform_range:
  "0 < n \<Longrightarrow> 0 \<le> alpha2index_uniform n a \<and> alpha2index_uniform n a < int n"
  by (simp add: alpha2index_uniform_def Let_def)

lemma alpha2index_uniform_pi: "alpha2index_uniform 121 pi = 120"
  by (simp add: alpha2index_uniform_def mrpt_round_def)

lemma alpha2index_uniform_0: "alpha2index_uniform 121 0 = 60"
  by (simp add: alpha2index_uniform_def mrpt_round_def)

section \<open>DiffDrive\_C: the inverse map\<close>

lemma arc_theta_range: "0 \<le> arc_theta p x y \<and> arc_theta p x y < 2 * pi"
  unfolding arc_theta_def using wrapTo2Pi_atan2_range by presburger

lemma arc_R_clamped_abs: "\<bar>arc_R_clamped p x y\<bar> = max \<bar>arc_R x y\<bar> (arc_Rmin p)"
  by (auto simp: arc_R_clamped_def arc_Rmin_def sign_def abs_mult)

lemma arc_R_clamped_sign: "sign (arc_R_clamped p x y) = sign (arc_R x y)"
proof (cases "\<bar>arc_R x y\<bar> < arc_Rmin p")
  case True
  then have "0 < arc_Rmin p" by linarith
  then show ?thesis using True
    by (simp add: arc_R_clamped_def sign_def mult_less_0_iff)
next
  case False
  then show ?thesis by (simp add: arc_R_clamped_def)
qed

lemma inverseMap_arc:
  assumes "y \<noteq> 0"
  shows "DiffDrive_C_inverseMap_WS2TP p x y =
    (let k = alpha2index p (pi * V_MAX p / (W_MAX p * arc_R_clamped p x y)) in
     if 0 \<le> k \<and> k < int (m_alphaValuesCount p) then
       Inr (arc_Rmin p \<le> \<bar>arc_R x y\<bar>, k,
            arc_theta p x y * (\<bar>arc_R x y\<bar> + turningRadiusReference p) / refDistance p)
     else Inl AssertionFailed)"
  using assms
  by (simp add: DiffDrive_C_inverseMap_WS2TP_def Let_def arc_R_def arc_Rmin_def arc_theta_def
      arc_R_clamped_def not_less)

lemma inverseMap_origin:
  "DiffDrive_C_inverseMap_WS2TP p 0 0 =
     (let (e, k, d) =
        (if K p < 0 then (False, int (m_alphaValuesCount p) - 1, 1000 / refDistance p)
         else (True, alpha2index p 0, 0))
      in if 0 \<le> k \<and> k < int (m_alphaValuesCount p) then Inr (e, k, d)
         else Inl AssertionFailed)"
  by (simp add: DiffDrive_C_inverseMap_WS2TP_def sign_def)

lemma unit_ptg_arc:
  "arc_R 0 1 = 1 / 2" "arc_Rmin (unit_ptg trr) = 1" "arc_theta (unit_ptg trr) 0 1 = pi"
  "arc_R_clamped (unit_ptg trr) 0 1 = 1"
  by (simp_all add: arc_R_def arc_Rmin_def arc_theta_def arc_R_clamped_def unit_ptg_def
      atan2_def wrapTo2Pi_small sign_def)

lemma unit_ptg_result:
  "DiffDrive_C_inverseMap_WS2TP (unit_ptg trr) 0 1 = Inr (False, 120, pi * (1 / 2 + trr))"
  by (simp add: inverseMap_arc unit_ptg_arc Let_def)
     (simp add: unit_ptg_def alpha2index_uniform_pi)

lemma unit_ptg_contract:
  "0 < m_alphaValuesCount (unit_ptg t)"
  "\<forall>a. 0 \<le> alpha2index (unit_ptg t) a
       \<and> alpha2index (unit_ptg t) a < int (m_alphaValuesCount (unit_ptg t))"
  "W_MAX (unit_ptg t) \<noteq> 0" "refDistance (unit_ptg t) \<noteq> 0"
  using alpha2index_uniform_range [of 121] by (simp_all add: unit_ptg_def)

text \<open>
  Claim C1, as the code has it. For \<open>y \<noteq> 0\<close> the inverse map computes
  \<open>R = (x\<^sup>2 + y\<^sup>2) / (2y)\<close>, an angle \<open>\<theta>\<close> wrapped into \<open>[0, 2\<pi>)\<close>, the distance
  \<open>d = \<theta> \<cdot> (|R| + turningRadiusReference) / refDistance\<close> with the radius \<^emph>\<open>before\<close> it is
  clamped, then clamps \<open>|R|\<close> from below to \<open>R_min = |V_max / W_max|\<close> keeping its sign
  (the result is exact iff nothing was clamped) and returns \<open>k = alpha2index(\<pi> \<cdot> V_max /
  (W_max \<cdot> R))\<close> for the clamped radius. In the unit scenario (\<open>K > 0\<close>,
  \<open>V_max = W_max = 1\<close>, offset \<open>(0, 1)\<close>) the radius \<open>1/2\<close> is clamped to \<open>1\<close>, so
  \<open>k = alpha2index(\<pi>)\<close>, and the distance before normalisation is
  \<open>\<pi> \<cdot> (1/2 + turningRadiusReference)\<close>.
\<close>

theorem inverseMap_arc_branch:
  assumes "y \<noteq> 0" and "W_MAX p \<noteq> 0" and "refDistance p \<noteq> 0"
  shows "DiffDrive_C_inverseMap_WS2TP p x y =
           (let k = alpha2index p (pi * V_MAX p / (W_MAX p * arc_R_clamped p x y))
            in if 0 \<le> k \<and> k < int (m_alphaValuesCount p)
               then Inr (arc_Rmin p \<le> \<bar>arc_R x y\<bar>, k,
                         arc_theta p x y * (\<bar>arc_R x y\<bar> + turningRadiusReference p)
                           / refDistance p)
               else Inl AssertionFailed)
         \<and> \<bar>arc_R_clamped p x y\<bar> = max \<bar>arc_R x y\<bar> (arc_Rmin p)
         \<and> sign (arc_R_clamped p x y) = sign (arc_R x y)
         \<and> 0 \<le> arc_theta p x y \<and> arc_theta p x y < 2 * pi
         \<and> (x = 0 \<and> y = 1 \<and> 0 < K p \<and> V_MAX p = 1 \<and> W_MAX p = 1 \<longrightarrow>
              arc_R_clamped p x y = 1 \<and> arc_Rmin p = 1 \<and> arc_R x y = 1 / 2
              \<and> arc_theta p x y * (\<bar>arc_R x y\<bar> + turningRadiusReference p)
                  = pi * (1 / 2 + turningRadiusReference p)
              \<and> pi * V_MAX p / (W_MAX p * arc_R_clamped p x y) = pi)"
proof -
  have unit: "arc_R_clamped p 0 1 = 1 \<and> arc_Rmin p = 1 \<and> arc_R 0 1 = 1 / 2
      \<and> arc_theta p 0 1 = pi"
    if "0 < K p" "V_MAX p = 1" "W_MAX p = 1"
    using that
    by (simp add: arc_R_def arc_Rmin_def arc_theta_def arc_R_clamped_def atan2_def
        wrapTo2Pi_small sign_def)
  show ?thesis
    using inverseMap_arc [OF assms(1), of p x] arc_R_clamped_abs [of p x y]
      arc_R_clamped_sign [of p x y] arc_theta_range [of p x y] unit
    by auto
qed

text \<open>
  The theorem at the unit scenario with \<open>turningRadiusReference = 1/10\<close>: the result is
  inexact, the index is that of \<open>\<pi>\<close> and the distance is \<open>\<pi> \<cdot> (1/2 + 1/10)\<close>.
\<close>

theorem inverseMap_arc_branch_witness:
  "(1::real) \<noteq> 0 \<and> W_MAX (unit_ptg (1 / 10)) \<noteq> 0 \<and> refDistance (unit_ptg (1 / 10)) \<noteq> 0
   \<and> DiffDrive_C_inverseMap_WS2TP (unit_ptg (1 / 10)) 0 1 = Inr (False, 120, 3 * pi / 5)"
proof -
  have h: "(1::real) \<noteq> 0" "W_MAX (unit_ptg (1 / 10)) \<noteq> 0"
    "refDistance (unit_ptg (1 / 10)) \<noteq> 0"
    by (simp_all add: unit_ptg_def)
  have k: "alpha2index (unit_ptg (1 / 10)) pi = 120"
    "m_alphaValuesCount (unit_ptg (1 / 10)) = 121"
    "K (unit_ptg (1 / 10)) = 1" "V_MAX (unit_ptg (1 / 10)) = 1"
    "W_MAX (unit_ptg (1 / 10)) = 1"
    "turningRadiusReference (unit_ptg (1 / 10)) = 1 / 10"
    "refDistance (unit_ptg (1 / 10)) = 1"
    by (simp_all add: unit_ptg_def alpha2index_uniform_pi)
  have "DiffDrive_C_inverseMap_WS2TP (unit_ptg (1 / 10)) 0 1 = Inr (False, 120, 3 * pi / 5)"
    using inverseMap_arc_branch [OF h, of 0] by (simp add: k unit_ptg_arc Let_def)
  with h show ?thesis by blast
qed

text \<open>
  The distance of the unit scenario is not \<open>\<pi>/2 \<cdot> (1 + turningRadiusReference)\<close>: with
  \<open>turningRadiusReference = 1\<close> and \<open>refDistance = 1\<close> the code returns \<open>3\<pi>/2\<close>, not \<open>\<pi>\<close>.
\<close>

theorem unit_scenario_distance_counterexample:
  "DiffDrive_C_inverseMap_WS2TP (unit_ptg 1) 0 1
     = Inr (False, alpha2index (unit_ptg 1) pi, 3 * pi / 2)
   \<and> refDistance (unit_ptg 1) = 1
   \<and> 3 * pi / 2 \<noteq> pi / 2 * (1 + turningRadiusReference (unit_ptg 1))"
  by (simp add: unit_ptg_result) (simp add: unit_ptg_def alpha2index_uniform_pi)

text \<open>
  Claim C10, as the code has it. When the generator has at least one direction and
  \<open>alpha2index\<close> returns an index below \<open>alphaValuesCount\<close>, the inverse map returns for
  every offset an index \<open>0 \<le> k < alphaValuesCount\<close>: its final assertions hold. At the
  offset \<open>(0, 0)\<close> it takes the \<open>y = 0\<close> branch, where \<open>sign(0) = +1\<close>: for \<open>K < 0\<close> the
  signs differ and the result is the fallback \<open>k = alphaValuesCount - 1\<close>,
  \<open>d = 1000 / refDistance\<close>, inexact; for \<open>K \<ge> 0\<close> the signs agree and the result is
  \<open>k = alpha2index(0)\<close>, \<open>d = 0\<close>, exact.
\<close>

theorem inverseMap_index_in_range:
  assumes "0 < m_alphaValuesCount p"
    and "\<forall>a. 0 \<le> alpha2index p a \<and> alpha2index p a < int (m_alphaValuesCount p)"
    and "W_MAX p \<noteq> 0" and "refDistance p \<noteq> 0"
  shows "(\<exists>e k d. DiffDrive_C_inverseMap_WS2TP p x y = Inr (e, k, d)
             \<and> 0 \<le> k \<and> k < int (m_alphaValuesCount p))
         \<and> DiffDrive_C_inverseMap_WS2TP p 0 0 =
             Inr (if K p < 0
                  then (False, int (m_alphaValuesCount p) - 1, 1000 / refDistance p)
                  else (True, alpha2index p 0, 0))"
proof -
  have origin: "DiffDrive_C_inverseMap_WS2TP p 0 0 =
             Inr (if K p < 0
                  then (False, int (m_alphaValuesCount p) - 1, 1000 / refDistance p)
                  else (True, alpha2index p 0, 0))"
    using assms(1,2) by (simp add: inverseMap_origin)
  have range: "\<exists>e k d. DiffDrive_C_inverseMap_WS2TP p x y = Inr (e, k, d)
             \<and> 0 \<le> k \<and> k < int (m_alphaValuesCount p)"
  proof (cases "y = 0")
    case True
    then show ?thesis using assms(1,2)
      by (auto simp: DiffDrive_C_inverseMap_WS2TP_def)
  next
    case False
    then show ?thesis using assms(2)
      by (simp add: inverseMap_arc Let_def)
  qed
  from range origin show ?thesis by blast
qed

text \<open>The theorem at the forward unit generator and the offset \<open>(0, 0)\<close>.\<close>

theorem inverseMap_index_in_range_witness:
  "0 < m_alphaValuesCount (unit_ptg (1 / 10))
   \<and> (\<forall>a. 0 \<le> alpha2index (unit_ptg (1 / 10)) a
          \<and> alpha2index (unit_ptg (1 / 10)) a < int (m_alphaValuesCount (unit_ptg (1 / 10))))
   \<and> W_MAX (unit_ptg (1 / 10)) \<noteq> 0 \<and> refDistance (unit_ptg (1 / 10)) \<noteq> 0
   \<and> DiffDrive_C_inverseMap_WS2TP (unit_ptg (1 / 10)) 0 0 = Inr (True, 60, 0)"
  using inverseMap_index_in_range [OF unit_ptg_contract, of "1 / 10" 0 0]
    unit_ptg_contract [of "1 / 10"]
  by (simp add: unit_ptg_def alpha2index_uniform_0)

text \<open>
  For the forward generator (\<open>K = +1\<close>) the signs of \<open>0\<close> and \<open>K\<close> agree, and the offset
  \<open>(0, 0)\<close> gives the exact straight-line result, not the fallback.
\<close>

theorem inverseMap_origin_counterexample:
  "sign 0 = sign (K (unit_ptg (1 / 10)))
   \<and> DiffDrive_C_inverseMap_WS2TP (unit_ptg (1 / 10)) 0 0 = Inr (True, 60, 0)
   \<and> DiffDrive_C_inverseMap_WS2TP (unit_ptg (1 / 10)) 0 0
       \<noteq> Inr (False, int (m_alphaValuesCount (unit_ptg (1 / 10))) - 1,
              1000 / refDistance (unit_ptg (1 / 10)))"
  by (simp add: inverseMap_origin) (simp add: unit_ptg_def alpha2index_uniform_0 sign_def)

section \<open>Evaluations of the fixtures\<close>

lemma line_ptg_simps:
  "getRefDistance line_ptg = 10"
  "initTPObstacleSingle line_ptg ds k = 10"
  "updateTPObstacleSingle line_ptg ds ox oy k out = (if oy = 0 \<and> 0 \<le> ox \<and> ox < out then ox else out)"
  "getPathStepForDist line_ptg ds k d = (if 0 \<le> d then Some (nat (mrpt_round (d * 100))) else None)"
  "getPathPose line_ptg ds k step = TPose2D (real step / 100) 0 0"
  "getPathTwist line_ptg ds k step = TTwist2D 1 0 0"
  "cannotBeNearerThan line_ptg s q r = (r < \<bar>pose_x q - pose_x (pose s)\<bar>)"
  "distance line_ptg s q = (if pose_y q = pose_y (pose s) \<and> pose_x (pose s) < pose_x q
                then Some (pose_x q - pose_x (pose s), 0) else None)"
  by (simp_all add: line_ptg_def)

lemma two_node_ball:
  "find_nodes_within_ball two_node_tree (TPose2D 1 0 0) 2 line_ptgs
     = Inr [(1 / 2, (1, 0, 0, 1 / 2)), (1, (0, 0, 0, 1))]"
  by (simp add: find_nodes_within_ball_def two_node_tree_def line_ptgs_def line_ptg_simps
      SE2_KinState.truncate_def)

lemma two_node_local:
  "local_obstacles_spec [(1, 0), (20, 0), (1 / 2, 1)] (TPose2D (1 / 2) 0 0) 10 = [(1 / 2, 0), (0, 1)]"
  by (simp add: local_obstacles_spec_def in_square_def to_local_def)

lemma goal_planner_simps:
  "params (goal_planner n r) = \<lparr> maxIterations = n, initialSearchRadius = r, renderPathInterpolatedSegments = 0 \<rparr>"
  "local_obstacles_cache (goal_planner n r) = Map.empty"
  "draw_random_free_pose (goal_planner n r) i t = Inr (TPose2D 1 0 0)"
  by (simp_all add: goal_planner_def)

lemma line_input_simps:
  "ptgs_in line_input = line_ptgs" "obstacles line_input = []"
  "stateStart line_input = \<lparr> pose = TPose2D 0 0 0, vel = TTwist2D 0 0 0 \<rparr>"
  "stateGoal line_input = \<lparr> pose = TPose2D 1 0 0, vel = TTwist2D 0 0 0 \<rparr>"
  "worldBboxMin line_input = TPose2D (- 5) (- 5) (- 4)"
  "worldBboxMax line_input = TPose2D 5 5 4"
  by (simp_all add: line_input_def)

lemma wrapToPi_0: "wrapToPi 0 = 0"
  using pi_gt_zero by (simp add: wrapToPi_def wrapTo2Pi_small)

lemma line_root:
  "initial_tree line_input =
     \<lparr> tree_root = 0,
       nodes = [\<lparr> pose = TPose2D 0 0 0, vel = TTwist2D 0 0 0, node_cost = 0, parentID = None \<rparr>],
       edges = Map.empty \<rparr>"
  by (simp add: initial_tree_def line_input_def PlannerOutput_default_def empty_tree_def
      next_free_node_ID_def insert_root_node_def)

lemma line_ball:
  "find_nodes_within_ball (initial_tree line_input) (TPose2D 1 0 0) 2 line_ptgs
     = Inr [(1, (0, 0, 0, 1))]"
  by (simp add: line_root find_nodes_within_ball_def line_ptgs_def line_ptg_simps
      SE2_KinState.truncate_def)

lemma line_try:
  "try_candidate \<lparr> maxIterations = n, initialSearchRadius = 2, renderPathInterpolatedSegments = 0 \<rparr>
     line_input (initial_tree line_input) 10 Map.empty (0, 0, 0, 1)
   = (Inr (Some (line_edge, 1)), line_cache)"
  by (simp add: try_candidate_def line_root cached_local_obstacles_def line_input_simps
      transform_pc_square_clipping_def line_ptgs_def tp_obstacles_single_path_def line_ptg_simps
      dyn_state_of_def twist_rotate_def mrpt_round_def pose_compose_def wrapToPi_0
      interpolated_path_def cost_path_segment_def SE2_KinState.truncate_def line_edge_def
      line_cache_def Let_def)

lemma line_insert:
  "insert_node_and_edge (initial_tree line_input) 0 (next_free_node_ID (initial_tree line_input))
     (stateTo line_edge) line_edge = Inr line_tree"
  by (simp add: line_root insert_node_and_edge_def next_free_node_ID_def line_edge_def line_tree_def)

lemma line_iter:
  "plan_iter (goal_planner n 2) line_input 10 2 i (initial_tree line_input) Map.empty
   = (Inr line_tree, line_cache)"
proof -
  have p: "parentId line_edge = 0" by (simp add: line_edge_def)
  show ?thesis
    by (simp add: plan_iter_def goal_planner_simps line_input_simps line_ball line_try p line_insert)
qed

lemma line_plan:
  "plan (goal_planner 1 2) line_input
     = (Inr \<lparr> originalInput = line_input, motionTree = line_tree, success = False \<rparr>, line_cache)"
proof -
  have pre: "initialized (ptgs_in line_input)"
    "\<not> pose_eq (worldBboxMin line_input) (worldBboxMax line_input)"
    "within_bbox (pose (stateStart line_input)) (worldBboxMax line_input) (worldBboxMin line_input)"
    "within_bbox (pose (stateGoal line_input)) (worldBboxMax line_input) (worldBboxMin line_input)"
    "max_ref_distance (ptgs (ptgs_in line_input)) = 10"
    by (simp_all add: line_input_simps line_ptgs_def pose_eq_def within_bbox_def max_ref_distance_def line_ptg_simps)
  show ?thesis
    by (simp add: plan_def pre goal_planner_simps line_iter PlannerOutput_default_def)
qed

section \<open>The neighbour search\<close>

lemma set_multimap_emplace: "set (multimap_emplace kv xs) = insert kv (set xs)"
  by (induction xs) auto

lemma sorted_multimap_emplace:
  "sorted (map fst xs) \<Longrightarrow> sorted (map fst (multimap_emplace kv xs))"
  by (induction xs) (auto simp: set_multimap_emplace)

lemma scan_ptgs_sound:
  assumes "scan_ptgs nid st q r k des acc = Inr m" and "sorted (map fst acc)"
  shows "sorted (map fst m)
         \<and> (\<forall>e \<in> set m. e \<in> set acc
               \<or> (\<exists>j < length des. emitted_by nid st q r (k + j) (des ! j) e))"
  using assms
proof (induction des arbitrary: k acc)
  case Nil
  then show ?case by simp
next
  case (Cons de des)
  have step: "sorted (map fst m)
      \<and> (\<forall>e \<in> set m. e \<in> set acc'
            \<or> (\<exists>j < length des. emitted_by nid st q r (Suc k + j) (des ! j) e))"
    if "scan_ptgs nid st q r (Suc k) des acc' = Inr m" "sorted (map fst acc')" for acc'
    using Cons.IH [OF that] .
  have lift: "\<exists>j < length (de # des). emitted_by nid st q r (k + j) ((de # des) ! j) e"
    if "\<exists>j < length des. emitted_by nid st q r (Suc k + j) (des ! j) e" for e
  proof -
    from that obtain j where "j < length des" "emitted_by nid st q r (Suc k + j) (des ! j) e"
      by blast
    then have "Suc j < length (de # des)"
      "emitted_by nid st q r (k + Suc j) ((de # des) ! Suc j) e" by simp_all
    then show ?thesis by blast
  qed
  show ?case
  proof (cases "cannotBeNearerThan de st q r")
    case True
    with Cons.prems have "scan_ptgs nid st q r (Suc k) des acc = Inr m" by simp
    from step [OF this Cons.prems(2)] lift show ?thesis by blast
  next
    case far: False
    show ?thesis
    proof (cases "distance de st q")
      case None
      with far Cons.prems have "scan_ptgs nid st q r (Suc k) des acc = Inr m" by simp
      from step [OF this Cons.prems(2)] lift show ?thesis by blast
    next
      case (Some dt)
      obtain d ti where dt: "dt = (d, ti)" by (cases dt)
      from Cons.prems(1) far Some dt have pos: "0 < d"
        by (simp split: if_splits)
      show ?thesis
      proof (cases "r < d")
        case True
        with far Some dt pos Cons.prems
        have "scan_ptgs nid st q r (Suc k) des acc = Inr m" by simp
        from step [OF this Cons.prems(2)] lift show ?thesis by blast
      next
        case False
        let ?acc = "multimap_emplace (d, (nid, k, ti, d)) acc"
        from False far Some dt pos Cons.prems
        have run: "scan_ptgs nid st q r (Suc k) des ?acc = Inr m" by simp
        have srt: "sorted (map fst ?acc)"
          using Cons.prems(2) by (rule sorted_multimap_emplace)
        have new: "emitted_by nid st q r (k + 0) ((de # des) ! 0) (d, (nid, k, ti, d))"
          using False far Some dt pos by (simp add: emitted_by_def)
        have "e \<in> set acc \<or> (\<exists>j < length (de # des). emitted_by nid st q r (k + j) ((de # des) ! j) e)"
          if "e \<in> set m" for e
        proof -
          from step [OF run srt] that
          consider "e \<in> set ?acc"
            | "\<exists>j < length des. emitted_by nid st q r (Suc k + j) (des ! j) e" by blast
          then show ?thesis
          proof cases
            case 1
            then have "e = (d, (nid, k, ti, d)) \<or> e \<in> set acc"
              by (simp add: set_multimap_emplace)
            then show ?thesis using new by (metis length_Cons zero_less_Suc)
          next
            case 2
            then show ?thesis using lift by blast
          qed
        qed
        with step [OF run srt] show ?thesis by blast
      qed
    qed
  qed
qed


lemma scan_nodes_sound:
  assumes "scan_nodes q r des nid ns acc = Inr m" and "sorted (map fst acc)"
  shows "sorted (map fst m)
         \<and> (\<forall>e \<in> set m. e \<in> set acc
               \<or> (\<exists>i < length ns. \<exists>j < length des.
                     emitted_by (nid + i) (SE2_KinState.truncate (ns ! i)) q r j (des ! j) e))"
  using assms
proof (induction ns arbitrary: nid acc)
  case Nil
  then show ?case by simp
next
  case (Cons n ns)
  from Cons.prems(1) obtain acc' where
    inner: "scan_ptgs nid (SE2_KinState.truncate n) q r 0 des acc = Inr acc'"
    and rest: "scan_nodes q r des (Suc nid) ns acc' = Inr m"
    by (auto split: sum.splits)
  from scan_ptgs_sound [OF inner Cons.prems(2)]
  have srt: "sorted (map fst acc')"
    and mem: "\<forall>e \<in> set acc'. e \<in> set acc
       \<or> (\<exists>j < length des. emitted_by nid (SE2_KinState.truncate n) q r j (des ! j) e)"
    by simp_all
  from Cons.IH [OF rest srt]
  have srt': "sorted (map fst m)"
    and mem': "\<forall>e \<in> set m. e \<in> set acc'
       \<or> (\<exists>i < length ns. \<exists>j < length des.
             emitted_by (Suc nid + i) (SE2_KinState.truncate (ns ! i)) q r j (des ! j) e)"
    by simp_all
  have "e \<in> set acc \<or> (\<exists>i < length (n # ns). \<exists>j < length des.
           emitted_by (nid + i) (SE2_KinState.truncate ((n # ns) ! i)) q r j (des ! j) e)"
    if "e \<in> set m" for e
  proof -
    from mem' that consider "e \<in> set acc'"
      | "\<exists>i < length ns. \<exists>j < length des.
             emitted_by (Suc nid + i) (SE2_KinState.truncate (ns ! i)) q r j (des ! j) e"
      by blast
    then show ?thesis
    proof cases
      case 1
      with mem have "e \<in> set acc
        \<or> (\<exists>j < length des. emitted_by (nid + 0) (SE2_KinState.truncate ((n # ns) ! 0)) q r j (des ! j) e)"
        by simp
      then show ?thesis by (metis length_Cons zero_less_Suc)
    next
      case 2
      then obtain i j where "i < length ns" "j < length des"
        "emitted_by (Suc nid + i) (SE2_KinState.truncate (ns ! i)) q r j (des ! j) e" by blast
      then have "Suc i < length (n # ns)" "j < length des"
        "emitted_by (nid + Suc i) (SE2_KinState.truncate ((n # ns) ! Suc i)) q r j (des ! j) e"
        by simp_all
      then show ?thesis by blast
    qed
  qed
  with srt' show ?case by blast
qed

lemma scan_ptgs_mono:
  "scan_ptgs nid st q r k des acc = Inr m \<Longrightarrow> set acc \<subseteq> set m"
proof (induction des arbitrary: k acc)
  case Nil
  then show ?case by simp
next
  case (Cons de des)
  then show ?case
    by (fastforce simp: set_multimap_emplace split: if_splits option.splits prod.splits)
qed

lemma scan_ptgs_complete:
  assumes "scan_ptgs nid st q r k des acc = Inr m"
    and "j < length des" and "\<not> cannotBeNearerThan (des ! j) st q r"
    and "distance (des ! j) st q = Some (d, ti)" and "d \<le> r"
  shows "(d, (nid, k + j, ti, d)) \<in> set m"
  using assms
proof (induction des arbitrary: k acc j)
  case Nil
  then show ?case by simp
next
  case (Cons de des)
  show ?case
  proof (cases j)
    case 0
    with Cons.prems have pos: "0 < d" by (simp split: if_splits)
    with 0 Cons.prems have
      "scan_ptgs nid st q r (Suc k) des (multimap_emplace (d, (nid, k, ti, d)) acc) = Inr m"
      by simp
    from scan_ptgs_mono [OF this] 0 show ?thesis by (auto simp: set_multimap_emplace)
  next
    case (Suc j')
    from Cons.prems(1) obtain acc' where "scan_ptgs nid st q r (Suc k) des acc' = Inr m"
      by (auto split: if_splits option.splits prod.splits)
    from Cons.IH [OF this, of j'] Cons.prems Suc show ?thesis by simp
  qed
qed

lemma scan_nodes_mono:
  "scan_nodes q r des nid ns acc = Inr m \<Longrightarrow> set acc \<subseteq> set m"
proof (induction ns arbitrary: nid acc)
  case Nil
  then show ?case by simp
next
  case (Cons n ns)
  from Cons.prems obtain acc' where
    inner: "scan_ptgs nid (SE2_KinState.truncate n) q r 0 des acc = Inr acc'"
    and rest: "scan_nodes q r des (Suc nid) ns acc' = Inr m"
    by (auto split: sum.splits)
  from scan_ptgs_mono [OF inner] Cons.IH [OF rest] show ?case by blast
qed

lemma scan_nodes_complete:
  assumes "scan_nodes q r des nid ns acc = Inr m"
    and "i < length ns" and "j < length des"
    and "\<not> cannotBeNearerThan (des ! j) (SE2_KinState.truncate (ns ! i)) q r"
    and "distance (des ! j) (SE2_KinState.truncate (ns ! i)) q = Some (d, ti)" and "d \<le> r"
  shows "(d, (nid + i, j, ti, d)) \<in> set m"
  using assms
proof (induction ns arbitrary: nid acc i)
  case Nil
  then show ?case by simp
next
  case (Cons n ns)
  from Cons.prems(1) obtain acc' where
    inner: "scan_ptgs nid (SE2_KinState.truncate n) q r 0 des acc = Inr acc'"
    and rest: "scan_nodes q r des (Suc nid) ns acc' = Inr m"
    by (auto split: sum.splits)
  show ?case
  proof (cases i)
    case 0
    with Cons.prems scan_ptgs_complete [OF inner, of j d ti]
    have "(d, (nid, j, ti, d)) \<in> set acc'" by simp
    with scan_nodes_mono [OF rest] 0 show ?thesis by auto
  next
    case (Suc i')
    from Cons.IH [OF rest, of i'] Cons.prems Suc show ?thesis by simp
  qed
qed

text \<open>
  Claim C5. When \<open>find_nodes_within_ball(tree, query, r, ptgs)\<close> returns, the entries of
  the multimap are in ascending order of their key, and every entry
  \<open>(key, node, ptg, trajectory, d)\<close> has \<open>key = d\<close>, the exact distance that the metric of
  that PTG gives from that node to the query, with \<open>0 < d \<le> r\<close>; so a pair whose distance
  query fails or exceeds \<open>r\<close> has no entry. Conversely every pair that is not pruned and
  whose exact distance is at most \<open>r\<close> has its entry.
\<close>

theorem find_nodes_within_ball_sound:
  assumes "find_nodes_within_ball tree query maxDistance trs = Inr closestNodes"
  shows "sorted (map fst closestNodes)
         \<and> (\<forall>(key, nodeId, ptgIdx, trajIndex, d) \<in> set closestNodes.
               key = d \<and> 0 < d \<and> d \<le> maxDistance
               \<and> nodeId < length (nodes tree) \<and> ptgIdx < length (ptgs trs)
               \<and> \<not> cannotBeNearerThan (ptgs trs ! ptgIdx)
                     (SE2_KinState.truncate (nodes tree ! nodeId)) query maxDistance
               \<and> distance (ptgs trs ! ptgIdx)
                     (SE2_KinState.truncate (nodes tree ! nodeId)) query = Some (d, trajIndex))
         \<and> (\<forall>nodeId < length (nodes tree). \<forall>ptgIdx < length (ptgs trs). \<forall>d trajIndex.
               \<not> cannotBeNearerThan (ptgs trs ! ptgIdx)
                     (SE2_KinState.truncate (nodes tree ! nodeId)) query maxDistance
               \<and> distance (ptgs trs ! ptgIdx)
                     (SE2_KinState.truncate (nodes tree ! nodeId)) query = Some (d, trajIndex)
               \<and> d \<le> maxDistance
               \<longrightarrow> (d, nodeId, ptgIdx, trajIndex, d) \<in> set closestNodes)"
proof -
  from assms
  have run: "scan_nodes query maxDistance (ptgs trs) 0 (nodes tree) [] = Inr closestNodes"
    by (simp add: find_nodes_within_ball_def split: if_splits)
  from scan_nodes_sound [OF run] have srt: "sorted (map fst closestNodes)"
    and mem: "\<forall>e \<in> set closestNodes. \<exists>i < length (nodes tree). \<exists>j < length (ptgs trs).
        emitted_by i (SE2_KinState.truncate (nodes tree ! i)) query maxDistance j
          (ptgs trs ! j) e"
    by simp_all
  from mem have snd: "\<forall>(key, nodeId, ptgIdx, trajIndex, d) \<in> set closestNodes.
               key = d \<and> 0 < d \<and> d \<le> maxDistance
               \<and> nodeId < length (nodes tree) \<and> ptgIdx < length (ptgs trs)
               \<and> \<not> cannotBeNearerThan (ptgs trs ! ptgIdx)
                     (SE2_KinState.truncate (nodes tree ! nodeId)) query maxDistance
               \<and> distance (ptgs trs ! ptgIdx)
                     (SE2_KinState.truncate (nodes tree ! nodeId)) query = Some (d, trajIndex)"
    unfolding emitted_by_def by fastforce
  have cmp: "(d, i, j, ti, d) \<in> set closestNodes"
    if "i < length (nodes tree)" "j < length (ptgs trs)"
      "\<not> cannotBeNearerThan (ptgs trs ! j) (SE2_KinState.truncate (nodes tree ! i)) query
           maxDistance"
      "distance (ptgs trs ! j) (SE2_KinState.truncate (nodes tree ! i)) query = Some (d, ti)"
      "d \<le> maxDistance" for i j d ti
    using scan_nodes_complete [OF run that] by simp
  from srt snd cmp show ?thesis by blast
qed

text \<open>
  The theorem on the tree of two nodes, for the query \<open>(1, 0, 0)\<close> and the radius 2: the
  child, at distance \<open>1/2\<close>, comes before the root, at distance 1.
\<close>

theorem find_nodes_within_ball_sound_witness:
  "find_nodes_within_ball two_node_tree (TPose2D 1 0 0) 2 line_ptgs
     = Inr [(1 / 2, (1, 0, 0, 1 / 2)), (1, (0, 0, 0, 1))]
   \<and> sorted (map fst [(1 / 2 :: real, (1 :: nat, 0 :: nat, 0 :: nat, 1 / 2 :: real)),
                      (1, (0, 0, 0, 1))])
   \<and> (1 / 2, 1, 0, 0, 1 / 2)
       \<in> set [(1 / 2 :: real, (1 :: nat, 0 :: nat, 0 :: nat, 1 / 2 :: real)), (1, (0, 0, 0, 1))]"
  using find_nodes_within_ball_sound [OF two_node_ball] two_node_ball by simp

section \<open>The local obstacle cache\<close>

lemma clip_loop_eq:
  "clip_loop p ip M xs =
     map (\<lambda>g. composePoint ip (fst g) (snd g)) (filter (in_square p M) xs)"
  by (induction p ip M xs rule: clip_loop.induct) (auto simp: in_square_def)

lemma composePoint_inverse: "composePoint (pose_inverse p) (fst g) (snd g) = to_local p g"
  by (simp add: composePoint_def pose_inverse_def to_local_def algebra_simps)

lemma transform_pc_square_clipping_spec:
  "transform_pc_square_clipping g p M = local_obstacles_spec g p M"
  by (simp add: transform_pc_square_clipping_def clip_loop_eq composePoint_inverse
      local_obstacles_spec_def)

lemma to_local_roundtrip: "composePoint p (fst (to_local p g)) (snd (to_local p g)) = g"
proof -
  define c s where "c = cos (pose_phi p)" and "s = sin (pose_phi p)"
  have sq: "c * c + s * s = 1"
    using sin_cos_squared_add [of "pose_phi p"] by (simp add: c_def s_def power2_eq_square add.commute)
  have k: "a * (c * c) + a * (s * s) = a" for a :: real
    using sq by (simp flip: distrib_left)
  have "pose_x p + ((fst g - pose_x p) * c + (snd g - pose_y p) * s) * c
          - (- (fst g - pose_x p) * s + (snd g - pose_y p) * c) * s
        = pose_x p + ((fst g - pose_x p) * (c * c) + (fst g - pose_x p) * (s * s))"
    by (simp add: algebra_simps)
  then have x: "pose_x p + ((fst g - pose_x p) * c + (snd g - pose_y p) * s) * c
          - (- (fst g - pose_x p) * s + (snd g - pose_y p) * c) * s = fst g"
    by (simp only: k)
  have "pose_y p + ((fst g - pose_x p) * c + (snd g - pose_y p) * s) * s
          + (- (fst g - pose_x p) * s + (snd g - pose_y p) * c) * c
        = pose_y p + ((snd g - pose_y p) * (c * c) + (snd g - pose_y p) * (s * s))"
    by (simp add: algebra_simps)
  then have y: "pose_y p + ((fst g - pose_x p) * c + (snd g - pose_y p) * s) * s
          + (- (fst g - pose_x p) * s + (snd g - pose_y p) * c) * c = snd g"
    by (simp only: k)
  show ?thesis
    using x y by (simp add: composePoint_def to_local_def prod_eq_iff c_def s_def)
qed

lemma cached_miss:
  assumes "nodeID < length (nodes tree)" "\<not> cache_hit cache tree nodeID"
  shows "cached_local_obstacles cache tree nodeID g M =
     (Inr (local_obstacles_spec g (pose (nodes tree ! nodeID)) M),
      cache(nodeID \<mapsto> \<lparr> globalNodePose = pose (nodes tree ! nodeID),
                         obs = local_obstacles_spec g (pose (nodes tree ! nodeID)) M \<rparr>))"
  using assms
  by (simp add: cached_local_obstacles_def cache_hit_def Let_def transform_pc_square_clipping_spec
      split: option.splits)

lemma cached_hit:
  assumes "nodeID < length (nodes tree)" "cache_hit cache tree nodeID"
  shows "cached_local_obstacles cache tree nodeID g M = (Inr (obs (the (cache nodeID))), cache)"
  using assms
  by (simp add: cached_local_obstacles_def cache_hit_def Let_def split: option.splits)


lemma wrapTo2Pi_turns: "\<exists>k. wrapTo2Pi a = a + 2 * pi * real_of_int k"
proof -
  have "wrapTo2Pi a = a + 2 * pi * real_of_int (- trunc (a / (2 * pi)) + (if a < 0 then 1 else 0))"
    by (simp add: wrapTo2Pi_def fmod_def algebra_simps)
  then show ?thesis by blast
qed

lemma sin_cos_wrapTo2Pi: "sin (wrapTo2Pi a) = sin a \<and> cos (wrapTo2Pi a) = cos a"
  using wrapTo2Pi_turns [of a] by (simp only: sin_cos_eq_iff)

lemma pose_eq_refl: "pose_eq p p"
  by (simp add: pose_eq_def)

lemma pose_eq_local:
  assumes "pose_eq p1 p2"
  shows "local_obstacles_spec g p1 M = local_obstacles_spec g p2 M"
proof -
  from assms have xy: "pose_x p1 = pose_x p2" "pose_y p1 = pose_y p2"
    and w: "wrapTo2Pi (pose_phi p1) = wrapTo2Pi (pose_phi p2)"
    by (simp_all add: pose_eq_def)
  have "sin (pose_phi p1) = sin (pose_phi p2)" "cos (pose_phi p1) = cos (pose_phi p2)"
    using sin_cos_wrapTo2Pi [of "pose_phi p1"] sin_cos_wrapTo2Pi [of "pose_phi p2"] w by simp_all
  with xy have "to_local p1 = to_local p2" "in_square p1 M = in_square p2 M"
    by (simp_all add: to_local_def in_square_def fun_eq_iff)
  then show ?thesis by (simp add: local_obstacles_spec_def)
qed

text \<open>
  Claim C8, as the code has it. For a node of the tree, \<open>cached_local_obstacles\<close> reuses
  the cached entry if and only if there is one and its stored pose equals the pose of the
  node. On a miss it returns, and stores with the pose of the node, exactly the global
  points with \<open>|\<Delta>x| \<le> MAX_XY_DIST\<close> and \<open>|\<Delta>y| \<le> MAX_XY_DIST\<close>, each transformed into the frame
  of the node (composing the pose of the node with a transformed point gives the point
  back). On a hit it returns the stored points and leaves the cache as it is, whatever
  the global obstacles and the distance of the call are; they are the clipped points of
  the call when the entry was computed from the same obstacles and distance. An
  identifier that is not in the tree is an exception.
\<close>

theorem cached_local_obstacles_contract:
  "(\<not> nodeID < length (nodes tree) \<longrightarrow>
      cached_local_obstacles cache tree nodeID g M = (Inl OutOfRange, cache))
   \<and> (nodeID < length (nodes tree) \<and> \<not> cache_hit cache tree nodeID \<longrightarrow>
        cached_local_obstacles cache tree nodeID g M =
          (Inr (local_obstacles_spec g (pose (nodes tree ! nodeID)) M),
           cache(nodeID \<mapsto> \<lparr> globalNodePose = pose (nodes tree ! nodeID),
                              obs = local_obstacles_spec g (pose (nodes tree ! nodeID)) M \<rparr>)))
   \<and> (nodeID < length (nodes tree) \<and> cache_hit cache tree nodeID \<longrightarrow>
        cached_local_obstacles cache tree nodeID g M = (Inr (obs (the (cache nodeID))), cache))
   \<and> (nodeID < length (nodes tree) \<and> cache_hit cache tree nodeID
        \<and> obs (the (cache nodeID))
            = local_obstacles_spec g (globalNodePose (the (cache nodeID))) M \<longrightarrow>
        cached_local_obstacles cache tree nodeID g M =
          (Inr (local_obstacles_spec g (pose (nodes tree ! nodeID)) M), cache))
   \<and> composePoint p (fst (to_local p pt)) (snd (to_local p pt)) = pt"
proof -
  have stale: "cached_local_obstacles cache tree nodeID g M =
          (Inr (local_obstacles_spec g (pose (nodes tree ! nodeID)) M), cache)"
    if "nodeID < length (nodes tree)" "cache_hit cache tree nodeID"
      "obs (the (cache nodeID)) = local_obstacles_spec g (globalNodePose (the (cache nodeID))) M"
  proof -
    from that(2) have "pose_eq (globalNodePose (the (cache nodeID))) (pose (nodes tree ! nodeID))"
      by (simp add: cache_hit_def split: option.splits)
    from pose_eq_local [OF this] that(3) cached_hit [OF that(1,2)] show ?thesis by simp
  qed
  have range: "cached_local_obstacles cache tree nodeID g M = (Inl OutOfRange, cache)"
    if "\<not> nodeID < length (nodes tree)"
    using that by (simp add: cached_local_obstacles_def)
  from range stale cached_miss cached_hit to_local_roundtrip show ?thesis by blast
qed

text \<open>
  The theorem on the tree of two nodes, for the child at \<open>(1/2, 0, 0)\<close>, three global points
  and the distance 10: the first call misses and keeps the two points within the square,
  in the frame of the child; the second call hits and returns them.
\<close>

theorem cached_local_obstacles_contract_witness:
  "cached_local_obstacles Map.empty two_node_tree 1 [(1, 0), (20, 0), (1 / 2, 1)] 10
     = (Inr [(1 / 2, 0), (0, 1)],
        [1 \<mapsto> \<lparr> globalNodePose = TPose2D (1 / 2) 0 0, obs = [(1 / 2, 0), (0, 1)] \<rparr>])
   \<and> cached_local_obstacles
        [1 \<mapsto> \<lparr> globalNodePose = TPose2D (1 / 2) 0 0, obs = [(1 / 2, 0), (0, 1)] \<rparr>]
        two_node_tree 1 [(1, 0), (20, 0), (1 / 2, 1)] 10
     = (Inr [(1 / 2, 0), (0, 1)],
        [1 \<mapsto> \<lparr> globalNodePose = TPose2D (1 / 2) 0 0, obs = [(1 / 2, 0), (0, 1)] \<rparr>])"
proof -
  have n: "(1::nat) < length (nodes two_node_tree)"
    "pose (nodes two_node_tree ! 1) = TPose2D (1 / 2) 0 0"
    by (simp_all add: two_node_tree_def)
  have miss: "\<not> cache_hit Map.empty two_node_tree 1"
    by (simp add: cache_hit_def)
  have hit: "cache_hit
      [1 \<mapsto> \<lparr> globalNodePose = TPose2D (1 / 2) 0 0, obs = [(1 / 2, 0), (0, 1)] \<rparr>]
      two_node_tree 1"
    by (simp add: cache_hit_def two_node_tree_def pose_eq_refl)
  show ?thesis
    using cached_local_obstacles_contract
        [of 1 two_node_tree Map.empty "[(1, 0), (20, 0), (1 / 2, 1)]" 10]
      cached_local_obstacles_contract
        [of 1 two_node_tree
          "[1 \<mapsto> \<lparr> globalNodePose = TPose2D (1 / 2) 0 0, obs = [(1 / 2, 0), (0, 1)] \<rparr>]"
          "[(1, 0), (20, 0), (1 / 2, 1)]" 10]
      n miss hit
    by (simp add: two_node_local)
qed

text \<open>
  A cached entry with the pose of the node is returned although it does not hold the
  clipped points of the global obstacles of the call: the entry of the root is empty, the
  global point \<open>(1, 0)\<close> is within the square, and the call returns no point.
\<close>

theorem cached_local_obstacles_stale_counterexample:
  "cached_local_obstacles [0 \<mapsto> \<lparr> globalNodePose = TPose2D 0 0 0, obs = [] \<rparr>]
     two_node_tree 0 [(1, 0)] 10
     = (Inr [], [0 \<mapsto> \<lparr> globalNodePose = TPose2D 0 0 0, obs = [] \<rparr>])
   \<and> local_obstacles_spec [(1, 0)] (pose (nodes two_node_tree ! 0)) 10 = [(1, 0)]"
  by (simp add: cached_local_obstacles_def two_node_tree_def pose_eq_refl
      local_obstacles_spec_def in_square_def to_local_def)

section \<open>Evaluations of the fixtures with obstacles\<close>

lemma obstacle_input_simps:
  "ptgs_in obstacle_input = line_ptgs" "obstacles obstacle_input = [(3, 0), (20, 0)]"
  "stateStart obstacle_input = \<lparr> pose = TPose2D 0 0 0, vel = TTwist2D 0 0 0 \<rparr>"
  "stateGoal obstacle_input = \<lparr> pose = TPose2D 1 0 0, vel = TTwist2D 0 0 0 \<rparr>"
  "worldBboxMin obstacle_input = TPose2D (- 5) (- 5) (- 4)"
  "worldBboxMax obstacle_input = TPose2D 5 5 4"
  by (simp_all add: obstacle_input_def line_input_def)

lemma blocked_input_simps:
  "ptgs_in blocked_input = line_ptgs" "obstacles blocked_input = [(1 / 2, 0)]"
  "stateStart blocked_input = \<lparr> pose = TPose2D 0 0 0, vel = TTwist2D 0 0 0 \<rparr>"
  "stateGoal blocked_input = \<lparr> pose = TPose2D 1 0 0, vel = TTwist2D 0 0 0 \<rparr>"
  "worldBboxMin blocked_input = TPose2D (- 5) (- 5) (- 4)"
  "worldBboxMax blocked_input = TPose2D 5 5 4"
  by (simp_all add: blocked_input_def line_input_def)

lemma reused_planner_simps:
  "params reused_planner
     = \<lparr> maxIterations = 1, initialSearchRadius = 2, renderPathInterpolatedSegments = 0 \<rparr>"
  "local_obstacles_cache reused_planner = line_cache"
  "draw_random_free_pose reused_planner i t = Inr (TPose2D 1 0 0)"
  by (simp_all add: reused_planner_def goal_planner_def)

lemma obstacle_root: "initial_tree obstacle_input = initial_tree line_input"
  by (simp add: initial_tree_def obstacle_input_def line_input_def PlannerOutput_default_def
      empty_tree_def next_free_node_ID_def insert_root_node_def)

lemma blocked_root: "initial_tree blocked_input = initial_tree line_input"
  by (simp add: initial_tree_def blocked_input_def line_input_def PlannerOutput_default_def
      empty_tree_def next_free_node_ID_def insert_root_node_def)

lemma obstacle_clipped:
  "transform_pc_square_clipping [(3, 0), (20, 0)] (TPose2D 0 0 0) 10 = [(3, 0)]"
  "transform_pc_square_clipping [(1 / 2, 0)] (TPose2D 0 0 0) 10 = [(1 / 2, 0)]"
  by (simp_all add: transform_pc_square_clipping_def pose_inverse_def composePoint_def)

lemma obstacle_try:
  "try_candidate \<lparr> maxIterations = n, initialSearchRadius = 2, renderPathInterpolatedSegments = 0 \<rparr>
     obstacle_input (initial_tree line_input) 10 Map.empty (0, 0, 0, 1)
   = (Inr (Some (line_edge, 1)), obstacle_cache)"
  by (simp add: try_candidate_def line_root cached_local_obstacles_def obstacle_input_simps
      obstacle_clipped line_ptgs_def tp_obstacles_single_path_def line_ptg_simps
      dyn_state_of_def twist_rotate_def mrpt_round_def pose_compose_def wrapToPi_0
      interpolated_path_def cost_path_segment_def SE2_KinState.truncate_def line_edge_def
      obstacle_cache_def Let_def)

lemma blocked_try:
  "try_candidate \<lparr> maxIterations = n, initialSearchRadius = 2, renderPathInterpolatedSegments = 0 \<rparr>
     blocked_input (initial_tree line_input) 10 line_cache (0, 0, 0, 1)
   = (Inr (Some (line_edge, 1)), line_cache)"
  by (simp add: try_candidate_def line_root cached_local_obstacles_def blocked_input_simps
      line_ptgs_def tp_obstacles_single_path_def line_ptg_simps pose_eq_refl
      dyn_state_of_def twist_rotate_def mrpt_round_def pose_compose_def wrapToPi_0
      interpolated_path_def cost_path_segment_def SE2_KinState.truncate_def line_edge_def
      line_cache_def Let_def)

lemma obstacle_plan:
  "plan (goal_planner 1 2) obstacle_input
     = (Inr \<lparr> originalInput = obstacle_input, motionTree = line_tree, success = False \<rparr>,
        obstacle_cache)"
proof -
  have p: "parentId line_edge = 0" by (simp add: line_edge_def)
  have it: "plan_iter (goal_planner n 2) obstacle_input 10 2 i (initial_tree line_input) Map.empty
      = (Inr line_tree, obstacle_cache)" for i n
    by (simp add: plan_iter_def goal_planner_simps obstacle_input_simps line_ball obstacle_try
        p line_insert)
  have pre: "initialized (ptgs_in obstacle_input)"
    "\<not> pose_eq (worldBboxMin obstacle_input) (worldBboxMax obstacle_input)"
    "within_bbox (pose (stateStart obstacle_input)) (worldBboxMax obstacle_input)
       (worldBboxMin obstacle_input)"
    "within_bbox (pose (stateGoal obstacle_input)) (worldBboxMax obstacle_input)
       (worldBboxMin obstacle_input)"
    "max_ref_distance (ptgs (ptgs_in obstacle_input)) = 10"
    by (simp_all add: obstacle_input_simps line_ptgs_def pose_eq_def within_bbox_def
        max_ref_distance_def line_ptg_simps)
  show ?thesis
    by (simp add: plan_def pre goal_planner_simps obstacle_root it PlannerOutput_default_def)
qed

lemma blocked_plan:
  "plan reused_planner blocked_input
     = (Inr \<lparr> originalInput = blocked_input, motionTree = line_tree, success = False \<rparr>,
        line_cache)"
proof -
  have p: "parentId line_edge = 0" by (simp add: line_edge_def)
  have it: "plan_iter reused_planner blocked_input 10 2 i (initial_tree line_input) line_cache
      = (Inr line_tree, line_cache)" for i
    by (simp add: plan_iter_def reused_planner_simps blocked_input_simps line_ball blocked_try
        p line_insert)
  have pre: "initialized (ptgs_in blocked_input)"
    "\<not> pose_eq (worldBboxMin blocked_input) (worldBboxMax blocked_input)"
    "within_bbox (pose (stateStart blocked_input)) (worldBboxMax blocked_input)
       (worldBboxMin blocked_input)"
    "within_bbox (pose (stateGoal blocked_input)) (worldBboxMax blocked_input)
       (worldBboxMin blocked_input)"
    "max_ref_distance (ptgs (ptgs_in blocked_input)) = 10"
    by (simp_all add: blocked_input_simps line_ptgs_def pose_eq_def within_bbox_def
        max_ref_distance_def line_ptg_simps)
  show ?thesis
    by (simp add: plan_def pre reused_planner_simps blocked_root it PlannerOutput_default_def)
qed


section \<open>Invariants of the planning loop\<close>

lemma cache_stable_refl: "cache_stable tree cache cache"
  by (simp add: cache_stable_def)

lemma cache_stable_trans:
  "cache_stable tree c1 c2 \<Longrightarrow> cache_stable tree c2 c3 \<Longrightarrow> cache_stable tree c1 c3"
  by (simp add: cache_stable_def cache_hit_def)

lemma cached_local_obstacles_stable:
  "cached_local_obstacles cache tree n g M = (r, cache') \<Longrightarrow> cache_stable tree cache cache'"
  by (auto simp: cached_local_obstacles_def cache_stable_def cache_hit_def Let_def
      split: if_splits option.splits)

lemma cached_local_obstacles_result:
  assumes "cached_local_obstacles cache tree n g M = (Inr lo, cache')"
  shows "n < length (nodes tree) \<and> cache_hit cache' tree n \<and> obs (the (cache' n)) = lo"
  using assms
  by (auto simp: cached_local_obstacles_def cache_hit_def pose_eq_refl Let_def
      split: if_splits option.splits)

lemma cached_local_obstacles_consistent:
  assumes "cached_local_obstacles cache tree n g M = (r, cache')" "cache_consistent g M cache"
  shows "cache_consistent g M cache'"
  using assms
  by (auto simp: cached_local_obstacles_def cache_consistent_def Let_def
      transform_pc_square_clipping_spec split: if_splits option.splits)

lemma edge_ok_stable:
  "edge_ok pin tree cache e \<Longrightarrow> cache_stable tree cache cache' \<Longrightarrow> edge_ok pin tree cache' e"
  by (simp add: edge_ok_def cache_stable_def cache_hit_def)

lemma try_candidate_stable:
  "try_candidate ps pin tree M cache tupl = (r, cache') \<Longrightarrow> cache_stable tree cache cache'"
  by (auto simp: try_candidate_def Let_def split: prod.splits sum.splits if_splits option.splits
      dest: cached_local_obstacles_stable)

lemma try_candidate_consistent:
  "try_candidate ps pin tree M cache tupl = (r, cache') \<Longrightarrow>
   cache_consistent (obstacles pin) M cache \<Longrightarrow> cache_consistent (obstacles pin) M cache'"
  by (auto simp: try_candidate_def Let_def split: prod.splits sum.splits if_splits option.splits
      dest: cached_local_obstacles_consistent)

lemma try_candidate_edge:
  assumes "try_candidate ps pin tree M cache tupl = (Inr (Some (e, c)), cache')"
  shows "edge_ok pin tree cache' e \<and> c = node_cost (nodes tree ! parentId e) + cost e"
proof -
  obtain nodeId ptgIdx trajIdx trajDist where t: "tupl = (nodeId, ptgIdx, trajIdx, trajDist)"
    by (cases tupl)
  from assms t obtain lo where
    lo: "cached_local_obstacles cache tree nodeId (obstacles pin) M = (Inr lo, cache')"
    by (auto simp: try_candidate_def Let_def split: prod.splits sum.splits if_splits option.splits)
  note res = cached_local_obstacles_result [OF lo]
  from assms t lo show ?thesis
    using res
    by (auto simp: try_candidate_def Let_def edge_ok_def cost_path_segment_def
        split: if_splits option.splits)
qed


lemma candidates_loop_inv:
  assumes "candidates_loop ps pin tree M cn cache be bc = (Inr (be', bc'), cache')"
    and "\<forall>e. be = Some e \<longrightarrow> edge_ok pin tree cache e"
  shows "cache_stable tree cache cache' \<and> (\<forall>e. be' = Some e \<longrightarrow> edge_ok pin tree cache' e)"
  using assms
proof (induction cn arbitrary: cache be bc)
  case Nil
  then show ?case by (simp add: cache_stable_refl)
next
  case (Cons tupl rest)
  obtain r c1 where tc: "try_candidate ps pin tree M cache (snd tupl) = (r, c1)"
    by (cases "try_candidate ps pin tree M cache (snd tupl)")
  note st = try_candidate_stable [OF tc]
  from Cons.prems(2) st have old: "\<forall>e. be = Some e \<longrightarrow> edge_ok pin tree c1 e"
    using edge_ok_stable by blast
  show ?case
  proof (cases r)
    case (Inl err)
    with Cons.prems(1) tc show ?thesis by simp
  next
    case (Inr cand)
    show ?thesis
    proof (cases cand)
      case None
      with Inr tc Cons.prems(1)
      have "candidates_loop ps pin tree M rest c1 be bc = (Inr (be', bc'), cache')" by simp
      from Cons.IH [OF this old] st show ?thesis using cache_stable_trans by blast
    next
      case (Some ec)
      obtain e c where ec: "ec = (e, c)" by (cases ec)
      from tc Inr Some ec have "try_candidate ps pin tree M cache (snd tupl) = (Inr (Some (e, c)), c1)"
        by simp
      from try_candidate_edge [OF this] have new: "edge_ok pin tree c1 e" by simp
      show ?thesis
      proof (cases "bc = None \<or> c < the bc")
        case True
        with Inr Some ec tc Cons.prems(1)
        have "candidates_loop ps pin tree M rest c1 (Some e) (Some c) = (Inr (be', bc'), cache')"
          by simp
        from Cons.IH [OF this] new st show ?thesis using cache_stable_trans by blast
      next
        case False
        with Inr Some ec tc Cons.prems(1)
        have "candidates_loop ps pin tree M rest c1 be bc = (Inr (be', bc'), cache')"
          by simp
        from Cons.IH [OF this old] st show ?thesis using cache_stable_trans by blast
      qed
    qed
  qed
qed

lemma candidates_loop_consistent:
  assumes "candidates_loop ps pin tree M cn cache be bc = (r, cache')"
    and "cache_consistent (obstacles pin) M cache"
  shows "cache_consistent (obstacles pin) M cache'"
  using assms
proof (induction cn arbitrary: cache be bc)
  case Nil
  then show ?case by simp
next
  case (Cons tupl rest)
  obtain r1 c1 where tc: "try_candidate ps pin tree M cache (snd tupl) = (r1, c1)"
    by (cases "try_candidate ps pin tree M cache (snd tupl)")
  note cs = try_candidate_consistent [OF tc Cons.prems(2)]
  show ?case
  proof (cases r1)
    case (Inl err)
    with Cons.prems(1) tc cs show ?thesis by simp
  next
    case (Inr cand)
    with Cons.prems(1) tc Cons.IH [OF _ cs] show ?thesis
      by (auto split: option.splits prod.splits if_splits)
  qed
qed

lemma cache_hit_append:
  "n < length (nodes tree) \<Longrightarrow> nodes tree' = nodes tree @ ns \<Longrightarrow>
   cache_hit cache tree' n = cache_hit cache tree n"
  by (simp add: cache_hit_def nth_append split: option.splits)

lemma edge_ok_append:
  assumes "edge_ok pin tree cache e" "nodes tree' = nodes tree @ ns"
  shows "edge_ok pin tree' cache e"
proof -
  from assms(1) have par: "parentId e < length (nodes tree)" by (simp add: edge_ok_def)
  from cache_hit_append [OF par assms(2)] assms par show ?thesis
    by (simp add: edge_ok_def nth_append)
qed

lemma insert_node_and_edge_inv:
  assumes "tree_inv pin tree cache" "edge_ok pin tree cache e"
    and "insert_node_and_edge tree (parentId e) (next_free_node_ID tree) s e = Inr tree'"
  shows "tree_inv pin tree' cache"
proof -
  from assms(2) have par: "parentId e < length (nodes tree)" by (simp add: edge_ok_def)
  let ?new = "\<lparr> pose = pose s, vel = vel s,
                 node_cost = node_cost (nodes tree ! parentId e) + cost e,
                 parentID = Some (parentId e) \<rparr>"
  from assms(3) par have t': "nodes tree' = nodes tree @ [?new]"
    "edges tree' = (edges tree)(length (nodes tree) \<mapsto> e)"
    by (auto simp: insert_node_and_edge_def next_free_node_ID_def)
  show ?thesis
    unfolding tree_inv_def
  proof (intro allI impI)
    fix c e'
    assume ed: "edges tree' c = Some e'"
    show "c < length (nodes tree') \<and> parentId e' < c
        \<and> parentID (nodes tree' ! c) = Some (parentId e')
        \<and> node_cost (nodes tree' ! c) = node_cost (nodes tree' ! parentId e') + cost e'
        \<and> edge_ok pin tree' cache e'"
    proof (cases "c = length (nodes tree)")
      case True
      with ed t' have "e' = e" by simp
      with True par edge_ok_append [OF assms(2) t'(1)] show ?thesis
        by (simp add: t' nth_append)
    next
      case False
      with ed t' have old: "edges tree c = Some e'" by simp
      with assms(1) have o: "c < length (nodes tree)" "parentId e' < c"
        "parentID (nodes tree ! c) = Some (parentId e')"
        "node_cost (nodes tree ! c) = node_cost (nodes tree ! parentId e') + cost e'"
        "edge_ok pin tree cache e'"
        by (simp_all add: tree_inv_def)
      with edge_ok_append [OF o(5) t'(1)] show ?thesis
        by (simp add: t' nth_append)
    qed
  qed
qed

lemma tree_inv_stable:
  "tree_inv pin tree cache \<Longrightarrow> cache_stable tree cache cache' \<Longrightarrow> tree_inv pin tree cache'"
  unfolding tree_inv_def using edge_ok_stable by blast

lemma plan_iter_inv:
  assumes "plan_iter P pin M r i tree cache = (Inr tree', cache')" "tree_inv pin tree cache"
  shows "tree_inv pin tree' cache'"
proof -
  from assms(1) obtain qi where "draw_random_free_pose P i tree = Inr qi"
    by (auto simp: plan_iter_def split: sum.splits)
  with assms(1) obtain cn where cn: "find_nodes_within_ball tree qi r (ptgs_in pin) = Inr cn"
    and run: "(if cn = [] then (Inr tree, cache)
               else case candidates_loop (params P) pin tree M cn cache None None of
                  (Inl e, cache') \<Rightarrow> (Inl e, cache')
                | (Inr (bestEdge, bestCost), cache') \<Rightarrow>
                    (case bestEdge of
                       None \<Rightarrow> (Inr tree, cache')
                     | Some e \<Rightarrow>
                         let newNodeId = next_free_node_ID tree
                         in (insert_node_and_edge tree (parentId e) newNodeId (stateTo e) e,
                             cache'))) = (Inr tree', cache')"
    by (auto simp: plan_iter_def split: sum.splits)
  show ?thesis
  proof (cases "cn = []")
    case True
    with run assms(2) show ?thesis by simp
  next
    case False
    obtain res c1 where cl: "candidates_loop (params P) pin tree M cn cache None None = (res, c1)"
      by (cases "candidates_loop (params P) pin tree M cn cache None None")
    with run False obtain be bc where res: "res = Inr (be, bc)"
      by (cases res) auto
    from candidates_loop_inv [OF cl [unfolded res]]
    have st: "cache_stable tree cache c1" and ok: "\<forall>e. be = Some e \<longrightarrow> edge_ok pin tree c1 e"
      by simp_all
    note inv1 = tree_inv_stable [OF assms(2) st]
    show ?thesis
    proof (cases be)
      case None
      with run False cl res inv1 show ?thesis by simp
    next
      case (Some e)
      with run False cl res have
        ins: "insert_node_and_edge tree (parentId e) (next_free_node_ID tree) (stateTo e) e = Inr tree'"
        and c: "cache' = c1" by simp_all
      from insert_node_and_edge_inv [OF inv1 _ ins] ok Some c show ?thesis by simp
    qed
  qed
qed

lemma plan_iter_consistent:
  assumes "plan_iter P pin M r i tree cache = (res, cache')"
    and "cache_consistent (obstacles pin) M cache"
  shows "cache_consistent (obstacles pin) M cache'"
  using assms candidates_loop_consistent
  by (fastforce simp: plan_iter_def Let_def split: sum.splits if_splits prod.splits option.splits)

lemma plan_loop_inv:
  assumes "plan_loop P pin M r its tree cache = (Inr tree', cache')" "tree_inv pin tree cache"
  shows "tree_inv pin tree' cache'"
  using assms
proof (induction its arbitrary: tree cache)
  case Nil
  then show ?case by simp
next
  case (Cons i its)
  from Cons.prems(1) obtain t1 c1 where
    it: "plan_iter P pin M r i tree cache = (Inr t1, c1)"
    and rest: "plan_loop P pin M r its t1 c1 = (Inr tree', cache')"
    by (auto split: prod.splits sum.splits)
  from Cons.IH [OF rest plan_iter_inv [OF it Cons.prems(2)]] show ?case .
qed

lemma plan_loop_consistent:
  assumes "plan_loop P pin M r its tree cache = (res, cache')"
    and "cache_consistent (obstacles pin) M cache"
  shows "cache_consistent (obstacles pin) M cache'"
  using assms
proof (induction its arbitrary: tree cache)
  case Nil
  then show ?case by simp
next
  case (Cons i its)
  obtain r1 c1 where it: "plan_iter P pin M r i tree cache = (r1, c1)"
    by (cases "plan_iter P pin M r i tree cache")
  note cs = plan_iter_consistent [OF it Cons.prems(2)]
  show ?case
  proof (cases r1)
    case (Inl e)
    with Cons.prems(1) it cs show ?thesis by simp
  next
    case (Inr t1)
    with Cons.prems(1) it have "plan_loop P pin M r its t1 c1 = (res, cache')" by simp
    from Cons.IH [OF this cs] show ?thesis .
  qed
qed

lemma initial_tree_inv: "tree_inv pin (initial_tree pin) cache"
  by (simp add: tree_inv_def initial_tree_def Let_def)

lemma plan_result:
  assumes "plan P pin = (Inr po, cache')"
  shows "plan_loop P pin (max_ref_distance (ptgs (ptgs_in pin))) (initialSearchRadius (params P))
           [0..<maxIterations (params P)] (initial_tree pin) (local_obstacles_cache P)
         = (Inr (motionTree po), cache')
       \<and> originalInput po = pin \<and> success po = False"
  using assms
  by (auto simp: plan_def Let_def PlannerOutput_default_def split: if_splits prod.splits sum.splits)

lemma plan_tree_inv:
  assumes "plan P pin = (Inr po, cache')"
  shows "tree_inv pin (motionTree po) cache'"
  using plan_result [OF assms] plan_loop_inv initial_tree_inv by blast

lemma plan_cache_consistent:
  assumes "plan P pin = (res, cache')"
    and "cache_consistent (obstacles pin) (max_ref_distance (ptgs (ptgs_in pin))) (local_obstacles_cache P)"
  shows "cache_consistent (obstacles pin) (max_ref_distance (ptgs (ptgs_in pin))) cache'"
  using assms plan_loop_consistent
  by (fastforce simp: plan_def Let_def split: if_splits prod.splits sum.splits)

section \<open>A search radius of 0\<close>

lemma find_nodes_within_ball_radius_0:
  assumes "find_nodes_within_ball tree query maxDistance trs = Inr closestNodes"
    and "maxDistance \<le> 0"
  shows "closestNodes = []"
proof (rule ccontr)
  assume "closestNodes \<noteq> []"
  then obtain e es where "closestNodes = e # es" by (cases closestNodes) simp_all
  then have e: "e \<in> set closestNodes" by simp
  from assms(1)
  have run: "scan_nodes query maxDistance (ptgs trs) 0 (nodes tree) [] = Inr closestNodes"
    by (simp add: find_nodes_within_ball_def split: if_splits)
  from scan_nodes_sound [OF run] e obtain i j where
    "emitted_by i (SE2_KinState.truncate (nodes tree ! i)) query maxDistance j (ptgs trs ! j) e"
    by auto
  with assms(2) show False by (auto simp: emitted_by_def)
qed

lemma plan_iter_radius_0:
  assumes "plan_iter P pin M r i tree cache = (Inr tree', cache')" "r \<le> 0"
  shows "tree' = tree \<and> cache' = cache"
  using assms find_nodes_within_ball_radius_0
  by (fastforce simp: plan_iter_def split: sum.splits if_splits)

lemma plan_loop_radius_0:
  assumes "plan_loop P pin M r its tree cache = (Inr tree', cache')" "r \<le> 0"
  shows "tree' = tree \<and> cache' = cache"
  using assms
proof (induction its arbitrary: tree cache)
  case Nil
  then show ?case by simp
next
  case (Cons i its)
  from Cons.prems(1) obtain t1 c1 where
    it: "plan_iter P pin M r i tree cache = (Inr t1, c1)"
    and rest: "plan_loop P pin M r its t1 c1 = (Inr tree', cache')"
    by (auto split: prod.splits sum.splits)
  from plan_iter_radius_0 [OF it Cons.prems(2)] Cons.IH [OF rest Cons.prems(2)]
  show ?case by simp
qed

text \<open>With a radius of 0 and a metric whose distances are positive, the scans return nothing and do not throw.\<close>

lemma scan_ptgs_returns_0:
  assumes "\<forall>de \<in> set des. \<forall>s q d k. distance de s q = Some (d, k) \<longrightarrow> 0 < d"
  shows "scan_ptgs nid st q 0 k des acc = Inr acc"
  using assms
proof (induction des arbitrary: k)
  case Nil
  then show ?case by simp
next
  case (Cons de des)
  then have IH: "scan_ptgs nid st q 0 (Suc k) des acc = Inr acc" by simp
  from Cons.prems have pos: "0 < d" if "distance de st q = Some (d, k)" for d k
    using that by (meson list.set_intros(1))
  show ?case
  proof (cases "distance de st q")
    case None
    with IH show ?thesis by simp
  next
    case (Some dk)
    obtain d j where "dk = (d, j)" by (cases dk)
    with Some pos [of d j] IH show ?thesis by simp
  qed
qed

lemma scan_nodes_returns_0:
  assumes "\<forall>de \<in> set des. \<forall>s q d k. distance de s q = Some (d, k) \<longrightarrow> 0 < d"
  shows "scan_nodes q 0 des nid ns acc = Inr acc"
  by (induction ns arbitrary: nid) (simp_all add: scan_ptgs_returns_0 [OF assms])

lemma plan_iter_returns_0:
  assumes "\<forall>de \<in> set (ptgs (ptgs_in pin)). \<forall>s q d k. distance de s q = Some (d, k) \<longrightarrow> 0 < d"
    and "ptgs (ptgs_in pin) \<noteq> []" and "nodes tree \<noteq> []"
    and "\<forall>i t. \<exists>q. draw_random_free_pose P i t = Inr q"
  shows "plan_iter P pin M 0 i tree cache = (Inr tree, cache)"
proof -
  from assms(4) obtain q where q: "draw_random_free_pose P i tree = Inr q" by blast
  from assms(2) have "1 \<le> length (ptgs (ptgs_in pin))" by (cases "ptgs (ptgs_in pin)") simp_all
  with assms(3) scan_nodes_returns_0 [OF assms(1)]
  have "find_nodes_within_ball tree q 0 (ptgs_in pin) = Inr []"
    by (simp add: find_nodes_within_ball_def)
  with q show ?thesis by (simp add: plan_iter_def)
qed

lemma plan_loop_returns_0:
  assumes "\<forall>de \<in> set (ptgs (ptgs_in pin)). \<forall>s q d k. distance de s q = Some (d, k) \<longrightarrow> 0 < d"
    and "ptgs (ptgs_in pin) \<noteq> []" and "nodes tree \<noteq> []"
    and "\<forall>i t. \<exists>q. draw_random_free_pose P i t = Inr q"
  shows "plan_loop P pin M 0 its tree cache = (Inr tree, cache)"
  by (induction its) (simp_all add: plan_iter_returns_0 [OF assms])

lemma max_ref_distance_Nil: "max_ref_distance [] = 0"
  by (simp add: max_ref_distance_def)

lemma initial_tree_nodes:
  "nodes (initial_tree pin) =
     [\<lparr> pose = pose (stateStart pin), vel = vel (stateStart pin), node_cost = 0, parentID = None \<rparr>]"
  "edges (initial_tree pin) = Map.empty"
  by (simp_all add: initial_tree_def Let_def PlannerOutput_default_def empty_tree_def
      insert_root_node_def)

section \<open>The planner: the claims\<close>

lemma within_bbox_iff:
  "within_bbox p mx mn \<longleftrightarrow>
     pose_x mn < pose_x p \<and> pose_x p < pose_x mx
     \<and> pose_y mn < pose_y p \<and> pose_y p < pose_y mx
     \<and> pose_phi mn < pose_phi p \<and> pose_phi p < pose_phi mx"
  by (auto simp: within_bbox_def)

lemma line_ptg_positive:
  "\<forall>de \<in> set (ptgs (ptgs_in line_input)). \<forall>s q d k. distance de s q = Some (d, k) \<longrightarrow> 0 < d"
  by (simp add: line_input_simps line_ptgs_def line_ptg_simps)

text \<open>
  Claim C2, amended. When \<open>plan\<close> returns, every edge of the motion tree has a parent and
  a PTG that exist, and its PTG distance \<open>d\<close> is strictly smaller than the free distance
  that \<open>tp_obstacles_single_path\<close> computes along the trajectory of the edge, at the
  local obstacles that \<open>cached_local_obstacles\<close> returns for the parent, with the PTG in
  the dynamic state of the parent: a candidate with \<open>d \<ge> freeDistance\<close> is never inserted.
  These local obstacles are the local obstacle set of the parent, the global points of the
  input within the square of half-side \<open>MAX_XY_DIST\<close> around the parent in the frame of the
  parent, when the cache of the planner holds at the call only entries computed from the
  obstacles of this input and this distance (an empty cache, for one). The cache is a
  member of the planner that \<open>plan\<close> never clears, so this is a condition on the calls
  before.
\<close>

theorem plan_edge_feasible:
  assumes "plan P pin = (Inr po, cache')" and "edges (motionTree po) c = Some e"
  shows "parentId e < length (nodes (motionTree po))
         \<and> ptgIndex e < length (ptgs (ptgs_in pin))
         \<and> (\<exists>lo. cached_local_obstacles cache' (motionTree po) (parentId e) (obstacles pin)
                    (max_ref_distance (ptgs (ptgs_in pin))) = (Inr lo, cache')
               \<and> ptgDist e <
                   tp_obstacles_single_path (ptgPathIndex e) lo
                     (ptgs (ptgs_in pin) ! ptgIndex e)
                     (dyn_state_of (nodes (motionTree po) ! parentId e))
               \<and> (cache_consistent (obstacles pin) (max_ref_distance (ptgs (ptgs_in pin)))
                     (local_obstacles_cache P) \<longrightarrow>
                   lo = local_obstacles_spec (obstacles pin)
                          (pose (nodes (motionTree po) ! parentId e))
                          (max_ref_distance (ptgs (ptgs_in pin)))))"
proof -
  let ?t = "motionTree po" and ?M = "max_ref_distance (ptgs (ptgs_in pin))"
  from plan_tree_inv [OF assms(1)] assms(2) have ok: "edge_ok pin ?t cache' e"
    by (simp add: tree_inv_def)
  then have par: "parentId e < length (nodes ?t)" and idx: "ptgIndex e < length (ptgs (ptgs_in pin))"
    and hit: "cache_hit cache' ?t (parentId e)"
    and lt: "ptgDist e < tp_obstacles_single_path (ptgPathIndex e) (obs (the (cache' (parentId e))))
           (ptgs (ptgs_in pin) ! ptgIndex e) (dyn_state_of (nodes ?t ! parentId e))"
    by (simp_all add: edge_ok_def)
  note call = cached_hit [OF par hit, of "obstacles pin" ?M]
  have "obs (the (cache' (parentId e))) = local_obstacles_spec (obstacles pin) (pose (nodes ?t ! parentId e)) ?M"
    if "cache_consistent (obstacles pin) ?M (local_obstacles_cache P)"
  proof -
    from plan_cache_consistent [OF assms(1) that] have cc: "cache_consistent (obstacles pin) ?M cache'" .
    from hit obtain itOc where it: "cache' (parentId e) = Some itOc"
      and pe: "pose_eq (globalNodePose itOc) (pose (nodes ?t ! parentId e))"
      by (auto simp: cache_hit_def split: option.splits)
    from cc it have "obs itOc = local_obstacles_spec (obstacles pin) (globalNodePose itOc) ?M"
      by (simp add: cache_consistent_def)
    with pose_eq_local [OF pe] it show ?thesis by simp
  qed
  with par idx call lt show ?thesis by blast
qed

text \<open>
  The theorem on the planning problem with obstacles, for a planner with an empty cache:
  one iteration inserts the edge from the root with distance 1, below the free distance 3
  at the local obstacles of the root, which are the clipped points of the input.
\<close>

theorem plan_edge_feasible_witness:
  "plan (goal_planner 1 2) obstacle_input
     = (Inr \<lparr> originalInput = obstacle_input, motionTree = line_tree, success = False \<rparr>,
        obstacle_cache)
   \<and> edges line_tree 1 = Some line_edge
   \<and> cached_local_obstacles obstacle_cache line_tree 0 [(3, 0), (20, 0)] 10
       = (Inr [(3, 0)], obstacle_cache)
   \<and> local_obstacles_spec [(3, 0), (20, 0)] (pose (nodes line_tree ! 0)) 10 = [(3, 0)]
   \<and> ptgDist line_edge = 1
   \<and> tp_obstacles_single_path 0 [(3, 0)] line_ptg (dyn_state_of (nodes line_tree ! 0)) = 3
   \<and> ptgDist line_edge
       < tp_obstacles_single_path 0 [(3, 0)] line_ptg (dyn_state_of (nodes line_tree ! 0))"
proof -
  let ?po = "\<lparr> originalInput = obstacle_input, motionTree = line_tree, success = False \<rparr>"
  have e: "edges (motionTree ?po) 1 = Some line_edge"
    by (simp add: line_tree_def)
  have m: "max_ref_distance (ptgs (ptgs_in obstacle_input)) = 10"
    by (simp add: obstacle_input_simps line_ptgs_def max_ref_distance_def line_ptg_simps)
  have f: "parentId line_edge = 0" "ptgIndex line_edge = 0" "ptgPathIndex line_edge = 0"
    "ptgDist line_edge = 1"
    by (simp_all add: line_edge_def)
  have cc: "cache_consistent (obstacles obstacle_input)
      (max_ref_distance (ptgs (ptgs_in obstacle_input)))
      (local_obstacles_cache (goal_planner 1 2))"
    by (simp add: cache_consistent_def goal_planner_simps)
  from plan_edge_feasible [OF obstacle_plan e] cc obtain lo where
    c: "cached_local_obstacles obstacle_cache (motionTree ?po) (parentId line_edge)
          (obstacles obstacle_input) (max_ref_distance (ptgs (ptgs_in obstacle_input)))
        = (Inr lo, obstacle_cache)"
    and lt: "ptgDist line_edge < tp_obstacles_single_path (ptgPathIndex line_edge) lo
          (ptgs (ptgs_in obstacle_input) ! ptgIndex line_edge)
          (dyn_state_of (nodes (motionTree ?po) ! parentId line_edge))"
    and lo: "lo = local_obstacles_spec (obstacles obstacle_input)
          (pose (nodes (motionTree ?po) ! parentId line_edge))
          (max_ref_distance (ptgs (ptgs_in obstacle_input)))"
    by blast
  have n: "pose (nodes line_tree ! 0) = TPose2D 0 0 0"
    by (simp add: line_tree_def)
  have s: "local_obstacles_spec [(3, 0), (20, 0)] (pose (nodes line_tree ! 0)) 10 = [(3, 0)]"
    unfolding n by (simp add: local_obstacles_spec_def in_square_def to_local_def)
  have mt: "motionTree ?po = line_tree" by simp
  have m': "max_ref_distance (ptgs line_ptgs) = 10"
    by (simp add: line_ptgs_def max_ref_distance_def line_ptg_simps)
  from lo have lo3: "lo = [(3, 0)]"
    unfolding mt m f obstacle_input_simps m' s .
  have t: "tp_obstacles_single_path 0 [(3, 0)] line_ptg d = 3" for d
    by (simp add: tp_obstacles_single_path_def line_ptg_simps)
  from c have c3: "cached_local_obstacles obstacle_cache line_tree 0 [(3, 0), (20, 0)] 10
       = (Inr [(3, 0)], obstacle_cache)"
    unfolding mt m f obstacle_input_simps m' lo3 .
  from obstacle_plan e c3 s f(4) t show ?thesis by simp
qed

text \<open>
  The claim as stated fails for a planner that is used again. The call on the problem
  without obstacles leaves the cache entry of the root, with no local obstacle. The next
  call, on the problem with the obstacle point at \<open>x = 1/2\<close> between the same start and the
  goal, reuses the entry, whose pose is that of its root, and inserts the edge of distance
  1: the free distance along its trajectory at the local obstacles of the parent, the
  clipped points of the input, is \<open>1/2\<close>.
\<close>

theorem plan_reused_cache_counterexample:
  "plan (goal_planner 1 2) line_input
     = (Inr \<lparr> originalInput = line_input, motionTree = line_tree, success = False \<rparr>, line_cache)
   \<and> reused_planner = (goal_planner 1 2) \<lparr> local_obstacles_cache := line_cache \<rparr>
   \<and> plan reused_planner blocked_input
     = (Inr \<lparr> originalInput = blocked_input, motionTree = line_tree, success = False \<rparr>,
        line_cache)
   \<and> edges line_tree 1 = Some line_edge
   \<and> parentId line_edge = 0 \<and> ptgIndex line_edge = 0 \<and> ptgPathIndex line_edge = 0
   \<and> ptgDist line_edge = 1
   \<and> transform_pc_square_clipping (obstacles blocked_input) (pose (nodes line_tree ! 0))
        (max_ref_distance (ptgs (ptgs_in blocked_input))) = [(1 / 2, 0)]
   \<and> tp_obstacles_single_path 0 [(1 / 2, 0)] (ptgs (ptgs_in blocked_input) ! 0)
        (dyn_state_of (nodes line_tree ! 0)) = 1 / 2"
proof -
  have m: "max_ref_distance (ptgs (ptgs_in blocked_input)) = 10"
    by (simp add: blocked_input_simps line_ptgs_def max_ref_distance_def line_ptg_simps)
  have f: "parentId line_edge = 0" "ptgIndex line_edge = 0" "ptgPathIndex line_edge = 0"
    "ptgDist line_edge = 1"
    by (simp_all add: line_edge_def)
  have n: "pose (nodes line_tree ! 0) = TPose2D 0 0 0"
    by (simp add: line_tree_def)
  have t: "tp_obstacles_single_path 0 [(1 / 2, 0)] line_ptg d = 1 / 2" for d
    by (simp add: tp_obstacles_single_path_def line_ptg_simps)
  have e: "edges line_tree 1 = Some line_edge"
    by (simp add: line_tree_def)
  have m': "max_ref_distance (ptgs line_ptgs) = 10"
    by (simp add: line_ptgs_def max_ref_distance_def line_ptg_simps)
  have c: "transform_pc_square_clipping (obstacles blocked_input) (pose (nodes line_tree ! 0))
        (max_ref_distance (ptgs (ptgs_in blocked_input))) = [(1 / 2, 0)]"
    unfolding m n blocked_input_simps m' by (rule obstacle_clipped)
  have d: "tp_obstacles_single_path 0 [(1 / 2, 0)] (ptgs (ptgs_in blocked_input) ! 0)
        (dyn_state_of (nodes line_tree ! 0)) = 1 / 2"
    by (simp add: blocked_input_simps line_ptgs_def t)
  have r: "reused_planner = (goal_planner 1 2) \<lparr> local_obstacles_cache := line_cache \<rparr>"
    by (rule reused_planner_def)
  from line_plan r blocked_plan e f c d show ?thesis by blast
qed

text \<open>
  Claim C3. After any number of iterations of the planning loop, and so after every
  insertion and when \<open>plan\<close> returns, every edge \<open>(p \<rightarrow> c)\<close> of the tree satisfies: the
  cost-to-come of \<open>c\<close> is the cost-to-come of \<open>p\<close> plus the cost of the edge, and the cost of
  the edge is its PTG distance, which is what \<open>cost_path_segment\<close> returns.
\<close>

theorem plan_cost_to_come:
  "(plan_loop P pin M r its (initial_tree pin) cache = (Inr tree, cache1)
      \<and> edges tree c = Some e \<longrightarrow> cost_to_come_ok tree c e)
   \<and> (plan P pin = (Inr po, cache2) \<and> edges (motionTree po) c = Some e \<longrightarrow>
        cost_to_come_ok (motionTree po) c e)"
proof -
  have inv: "cost_to_come_ok t c e" if "tree_inv pin t ch" "edges t c = Some e" for t ch
    using that by (simp add: tree_inv_def edge_ok_def cost_to_come_ok_def cost_path_segment_def)
  have "cost_to_come_ok tree c e"
    if "plan_loop P pin M r its (initial_tree pin) cache = (Inr tree, cache1)"
      "edges tree c = Some e"
    using inv [OF plan_loop_inv [OF that(1) initial_tree_inv] that(2)] .
  moreover have "cost_to_come_ok (motionTree po) c e"
    if "plan P pin = (Inr po, cache2)" "edges (motionTree po) c = Some e"
    using inv [OF plan_tree_inv [OF that(1)] that(2)] .
  ultimately show ?thesis by blast
qed

text \<open>
  The theorem on the planning problem of the fixtures: the child has the cost-to-come 1,
  the root 0, the edge the cost 1.
\<close>

theorem plan_cost_to_come_witness:
  "plan (goal_planner 1 2) line_input
     = (Inr \<lparr> originalInput = line_input, motionTree = line_tree, success = False \<rparr>, line_cache)
   \<and> edges line_tree 1 = Some line_edge
   \<and> cost_to_come_ok line_tree 1 line_edge
   \<and> node_cost (nodes line_tree ! 1) = 1 \<and> node_cost (nodes line_tree ! 0) = 0
   \<and> cost line_edge = 1"
proof -
  have e: "edges (motionTree \<lparr> originalInput = line_input, motionTree = line_tree, success = False \<rparr>) 1
    = Some line_edge"
    by (simp add: line_tree_def)
  from plan_cost_to_come [of "goal_planner 1 2" line_input _ _ _ _ _ _ 1 line_edge
      "\<lparr> originalInput = line_input, motionTree = line_tree, success = False \<rparr>" line_cache]
    line_plan e
  have "cost_to_come_ok line_tree 1 line_edge" by simp
  with line_plan e show ?thesis by (simp add: line_tree_def line_edge_def)
qed

text \<open>
  Claim C6, as the code has it. \<open>plan\<close> fails with an assertion, leaving the cache of the
  planner as it was, when the PTG set is not initialised, when the bounds of the box are
  equal, or when the start or the goal pose is not within the box; and \<open>within_bbox\<close> holds
  exactly for the poses strictly between the bounds in \<open>x\<close>, \<open>y\<close> and \<open>phi\<close>: the box is open,
  and a pose with a coordinate equal to that of \<open>worldBboxMin\<close> or of \<open>worldBboxMax\<close> is
  rejected.
\<close>

theorem plan_preconditions:
  "(\<not> initialized (ptgs_in pin)
      \<or> pose_eq (worldBboxMin pin) (worldBboxMax pin)
      \<or> \<not> within_bbox (pose (stateStart pin)) (worldBboxMax pin) (worldBboxMin pin)
      \<or> \<not> within_bbox (pose (stateGoal pin)) (worldBboxMax pin) (worldBboxMin pin)
      \<longrightarrow> plan P pin = (Inl AssertionFailed, local_obstacles_cache P))
   \<and> (worldBboxMin pin = worldBboxMax pin \<longrightarrow> pose_eq (worldBboxMin pin) (worldBboxMax pin))
   \<and> (within_bbox p mx mn \<longleftrightarrow>
         pose_x mn < pose_x p \<and> pose_x p < pose_x mx
         \<and> pose_y mn < pose_y p \<and> pose_y p < pose_y mx
         \<and> pose_phi mn < pose_phi p \<and> pose_phi p < pose_phi mx)
   \<and> (pose_x p = pose_x mn \<or> pose_y p = pose_y mn \<or> pose_phi p = pose_phi mn
        \<or> pose_x p = pose_x mx \<or> pose_y p = pose_y mx \<or> pose_phi p = pose_phi mx
        \<longrightarrow> \<not> within_bbox p mx mn)"
proof -
  have "plan P pin = (Inl AssertionFailed, local_obstacles_cache P)"
    if "\<not> initialized (ptgs_in pin)
      \<or> pose_eq (worldBboxMin pin) (worldBboxMax pin)
      \<or> \<not> within_bbox (pose (stateStart pin)) (worldBboxMax pin) (worldBboxMin pin)
      \<or> \<not> within_bbox (pose (stateGoal pin)) (worldBboxMax pin) (worldBboxMin pin)"
    using that by (auto simp: plan_def)
  moreover have "pose_eq (worldBboxMin pin) (worldBboxMax pin)"
    if "worldBboxMin pin = worldBboxMax pin"
    using that by (simp add: pose_eq_refl)
  moreover have "\<not> within_bbox p mx mn"
    if "pose_x p = pose_x mn \<or> pose_y p = pose_y mn \<or> pose_phi p = pose_phi mn
        \<or> pose_x p = pose_x mx \<or> pose_y p = pose_y mx \<or> pose_phi p = pose_phi mx"
    using that by (auto simp: within_bbox_def)
  ultimately show ?thesis using within_bbox_iff [of p mx mn] by blast
qed

text \<open>
  The theorem on the problem whose goal \<open>(100, 0, 0)\<close> is outside the box.
\<close>

theorem plan_preconditions_witness:
  "\<not> within_bbox (pose (stateGoal far_goal_input)) (worldBboxMax far_goal_input)
       (worldBboxMin far_goal_input)
   \<and> plan (goal_planner 500 2) far_goal_input = (Inl AssertionFailed, Map.empty)"
proof -
  have g: "\<not> within_bbox (pose (stateGoal far_goal_input)) (worldBboxMax far_goal_input)
       (worldBboxMin far_goal_input)"
    by (simp add: far_goal_input_def line_input_def within_bbox_def)
  with plan_preconditions [of far_goal_input "goal_planner 500 2"] show ?thesis
    by (simp add: goal_planner_simps)
qed

text \<open>
  A start pose on the lower bound of the box in \<open>x\<close> is within the inclusive-open box
  \<open>[worldBboxMin, worldBboxMax)\<close>, the other sanity checks hold, and \<open>plan\<close> fails.
\<close>

theorem plan_lower_bound_counterexample:
  "initialized (ptgs_in boundary_input)
   \<and> worldBboxMin boundary_input \<noteq> worldBboxMax boundary_input
   \<and> pose_x (worldBboxMin boundary_input) \<le> pose_x (pose (stateStart boundary_input))
   \<and> pose_x (pose (stateStart boundary_input)) < pose_x (worldBboxMax boundary_input)
   \<and> pose_y (worldBboxMin boundary_input) \<le> pose_y (pose (stateStart boundary_input))
   \<and> pose_y (pose (stateStart boundary_input)) < pose_y (worldBboxMax boundary_input)
   \<and> pose_phi (worldBboxMin boundary_input) \<le> pose_phi (pose (stateStart boundary_input))
   \<and> pose_phi (pose (stateStart boundary_input)) < pose_phi (worldBboxMax boundary_input)
   \<and> within_bbox (pose (stateGoal boundary_input)) (worldBboxMax boundary_input)
        (worldBboxMin boundary_input)
   \<and> pose_x (pose (stateStart boundary_input)) = pose_x (worldBboxMin boundary_input)
   \<and> plan (goal_planner 1 2) boundary_input = (Inl AssertionFailed, Map.empty)"
  by (simp add: boundary_input_def line_input_def line_ptgs_def within_bbox_def plan_def
      pose_eq_def goal_planner_simps)

text \<open>
  Claim C7. With a search radius of 0, \<open>find_nodes_within_ball\<close> yields no candidate;
  when \<open>plan\<close> returns, the tree is the initial tree, with the root as its only node and
  no edge, and \<open>success\<close> is false. Whatever the input and the radius, an output of
  \<open>plan\<close> has \<open>success = false\<close>. And with a radius of 0 \<open>plan\<close> does return, with this
  output and the cache unchanged, when the sanity checks hold, the sampler does not give
  up and no PTG metric reports a distance that is not positive (the other outcomes are
  the exceptions of these checks).
\<close>

theorem plan_radius_0:
  "(find_nodes_within_ball tree query 0 trs = Inr closestNodes \<longrightarrow> closestNodes = [])
   \<and> (initialSearchRadius (params P) = 0 \<and> plan P pin = (Inr po, cache') \<longrightarrow>
        motionTree po = initial_tree pin
        \<and> nodes (motionTree po) =
            [\<lparr> pose = pose (stateStart pin), vel = vel (stateStart pin), node_cost = 0,
               parentID = None \<rparr>]
        \<and> edges (motionTree po) = Map.empty
        \<and> success po = False)
   \<and> (plan P pin = (Inr po, cache') \<longrightarrow> success po = False)
   \<and> (initialSearchRadius (params P) = 0
        \<and> initialized (ptgs_in pin)
        \<and> \<not> pose_eq (worldBboxMin pin) (worldBboxMax pin)
        \<and> within_bbox (pose (stateStart pin)) (worldBboxMax pin) (worldBboxMin pin)
        \<and> within_bbox (pose (stateGoal pin)) (worldBboxMax pin) (worldBboxMin pin)
        \<and> 0 < max_ref_distance (ptgs (ptgs_in pin))
        \<and> (\<forall>i t. \<exists>q. draw_random_free_pose P i t = Inr q)
        \<and> (\<forall>de \<in> set (ptgs (ptgs_in pin)). \<forall>s q d k. distance de s q = Some (d, k) \<longrightarrow> 0 < d)
        \<longrightarrow> plan P pin =
              (Inr \<lparr> originalInput = pin, motionTree = initial_tree pin, success = False \<rparr>,
               local_obstacles_cache P))"
proof -
  have a: "closestNodes = []" if "find_nodes_within_ball tree query 0 trs = Inr closestNodes"
    using find_nodes_within_ball_radius_0 [OF that] by simp
  have b: "motionTree po = initial_tree pin
        \<and> nodes (motionTree po) =
            [\<lparr> pose = pose (stateStart pin), vel = vel (stateStart pin), node_cost = 0,
               parentID = None \<rparr>]
        \<and> edges (motionTree po) = Map.empty
        \<and> success po = False"
    if "initialSearchRadius (params P) = 0" "plan P pin = (Inr po, cache')"
  proof -
    from plan_result [OF that(2)] that(1) plan_loop_radius_0
    have "motionTree po = initial_tree pin" "success po = False" by fastforce+
    then show ?thesis by (simp add: initial_tree_nodes)
  qed
  have c: "success po = False" if "plan P pin = (Inr po, cache')"
    using plan_result [OF that] by simp
  have d: "plan P pin =
              (Inr \<lparr> originalInput = pin, motionTree = initial_tree pin, success = False \<rparr>,
               local_obstacles_cache P)"
    if "initialSearchRadius (params P) = 0" "initialized (ptgs_in pin)"
      "\<not> pose_eq (worldBboxMin pin) (worldBboxMax pin)"
      "within_bbox (pose (stateStart pin)) (worldBboxMax pin) (worldBboxMin pin)"
      "within_bbox (pose (stateGoal pin)) (worldBboxMax pin) (worldBboxMin pin)"
      "0 < max_ref_distance (ptgs (ptgs_in pin))"
      "\<forall>i t. \<exists>q. draw_random_free_pose P i t = Inr q"
      "\<forall>de \<in> set (ptgs (ptgs_in pin)). \<forall>s q d k. distance de s q = Some (d, k) \<longrightarrow> 0 < d"
  proof -
    from that(6) have ne: "ptgs (ptgs_in pin) \<noteq> []"
      using max_ref_distance_Nil by force
    have nn: "nodes (initial_tree pin) \<noteq> []" by (simp add: initial_tree_nodes)
    note loop = plan_loop_returns_0 [OF that(8) ne nn that(7)]
    from that(1-6) show ?thesis
      by (simp add: plan_def loop PlannerOutput_default_def)
  qed
  from a b c d show ?thesis by blast
qed

text \<open>
  The theorem on the planning problem of the fixtures, with three iterations and a radius of 0.
\<close>

theorem plan_radius_0_witness:
  "initialSearchRadius (params (goal_planner 3 0)) = 0
   \<and> plan (goal_planner 3 0) line_input =
       (Inr \<lparr> originalInput = line_input, motionTree = initial_tree line_input,
              success = False \<rparr>, Map.empty)
   \<and> nodes (initial_tree line_input) =
       [\<lparr> pose = TPose2D 0 0 0, vel = TTwist2D 0 0 0, node_cost = 0, parentID = None \<rparr>]"
proof -
  have pre: "initialized (ptgs_in line_input)"
    "\<not> pose_eq (worldBboxMin line_input) (worldBboxMax line_input)"
    "within_bbox (pose (stateStart line_input)) (worldBboxMax line_input) (worldBboxMin line_input)"
    "within_bbox (pose (stateGoal line_input)) (worldBboxMax line_input) (worldBboxMin line_input)"
    "max_ref_distance (ptgs (ptgs_in line_input)) = 10"
    by (simp_all add: line_input_simps line_ptgs_def pose_eq_def within_bbox_def
        max_ref_distance_def line_ptg_simps)
  from plan_radius_0 [of _ _ _ _ "goal_planner 3 0" line_input] pre line_ptg_positive
  have "plan (goal_planner 3 0) line_input =
       (Inr \<lparr> originalInput = line_input, motionTree = initial_tree line_input,
              success = False \<rparr>, Map.empty)"
    by (simp add: goal_planner_simps)
  then show ?thesis by (simp add: goal_planner_simps line_root)
qed

section \<open>Rounding to double\<close>













section \<open>The roundings of the evaluated calls\<close>






































































































































section \<open>HolonomicBlend: evaluations\<close>




















section \<open>HolonomicBlend: the exceptions of the arc length and of the inverse map\<close>














section \<open>HolonomicBlend: the generator at rest\<close>














section \<open>HolonomicBlend: the claims\<close>







end
